theory Spec2Isabelle
  imports Complex_Main "HOL-Library.Word"
begin

section \<open>The Sempress Git LFS filter: compression gate and quality engine\<close>

text \<open>
  A shallow embedding of \<^verbatim>\<open>git_lfs_sempress\<close>: the clean and smudge filters
  (\<^verbatim>\<open>filter.py\<close>), the threshold check (\<^verbatim>\<open>config.py\<close>), the codec wrapper and
  the ratio estimator (\<^verbatim>\<open>compression.py\<close>) and the quality report (\<^verbatim>\<open>quality.py\<close>).

  Conventions of the embedding.
  \<^item> Python \<^verbatim>\<open>bytes\<close> are lists of 8-bit words.
  \<^item> A Python exception derived from \<^verbatim>\<open>Exception\<close> is a value of type \<open>exn\<close>; a
    function that may raise returns \<open>exn + 'a\<close> with \<open>Inl\<close> for the raise. The handlers of
    the source are \<^verbatim>\<open>except Exception\<close>, so \<^verbatim>\<open>KeyboardInterrupt\<close> and
    \<^verbatim>\<open>SystemExit\<close> are outside the model.
  \<^item> A Python float is read as the real number it denotes. In the filter the floats are
    sizes divided by \<open>2\<^sup>2\<^sup>0\<close> (exact), constants of the estimator and thresholds of the
    configuration, and the achieved ratio is taken as the exact quotient of the two
    lengths. In the quality report the arithmetic is that of IEEE 754 binary64: every
    operation rounds its exact result to the nearest double, ties to even (the function
    \<open>fl\<close> below), and a float can be \<^verbatim>\<open>nan\<close>. Overflow to infinity is not modelled.
  \<^item> Logging is not modelled. The calls into the external codec are recorded in a trace,
    so that "the codec was not invoked" is a statement about the returned trace.
\<close>

subsection \<open>Values, exceptions, the external codec\<close>

type_synonym byte = "8 word"
type_synonym bytes = "byte list"

datatype exn = TypeError | ZeroDivisionError | ValueError | KeyError | OSError | CodecFailure

text \<open>A value loaded from \<^verbatim>\<open>.sempress.yml\<close>: a number, a string or \<^verbatim>\<open>None\<close>.\<close>

datatype py_value = PNum real | PStr string | PNone

text \<open>
  The \<^verbatim>\<open>sempress\<close> library (\<^verbatim>\<open>encode_csv\<close>, \<^verbatim>\<open>decode_to_csv\<close>) is external: it is a
  pair of functions that return a blob or raise.
\<close>

record codec =
  encode_csv :: "bytes \<Rightarrow> exn + bytes"
  decode_to_csv :: "bytes \<Rightarrow> exn + bytes"

datatype codec_call = EncodeCall bytes | DecodeCall bytes

subsection \<open>\<^verbatim>\<open>config.py\<close>: thresholds\<close>

text \<open>\<^verbatim>\<open>d.get(key, default)\<close> on a dictionary.\<close>

definition dict_get :: "('k \<rightharpoonup> 'v) \<Rightarrow> 'k \<Rightarrow> 'v \<Rightarrow> 'v" where
  "dict_get d k dflt = (case d k of None \<Rightarrow> dflt | Some v \<Rightarrow> v)"

text \<open>\<^verbatim>\<open>x < v\<close> for a float \<open>x\<close>: a \<^verbatim>\<open>TypeError\<close> unless \<open>v\<close> is a number.\<close>

fun py_lt :: "real \<Rightarrow> py_value \<Rightarrow> exn + bool" where
  "py_lt x (PNum y) = Inr (x < y)"
| "py_lt x (PStr s) = Inl TypeError"
| "py_lt x PNone = Inl TypeError"

text \<open>The \<^verbatim>\<open>thresholds\<close> section of \<^verbatim>\<open>DEFAULT_CONFIG\<close>.\<close>

definition DEFAULT_thresholds :: "string \<rightharpoonup> py_value" where
  "DEFAULT_thresholds =
     [''min_size_mb'' \<mapsto> PNum 1, ''min_compression_ratio'' \<mapsto> PNum 1.5]"

text \<open>\<^verbatim>\<open>Config.should_compress\<close>; the argument is what \<^verbatim>\<open>get_thresholds()\<close> returns.\<close>

definition should_compress :: "(string \<rightharpoonup> py_value) \<Rightarrow> nat \<Rightarrow> real \<Rightarrow> exn + bool" where
  "should_compress thresholds file_size_bytes estimated_ratio =
     (let min_size_mb = dict_get thresholds ''min_size_mb'' (PNum 1);
          size_mb = real file_size_bytes / (1024 * 1024)
      in case py_lt size_mb min_size_mb of
           Inl e \<Rightarrow> Inl e
         | Inr True \<Rightarrow> Inr False
         | Inr False \<Rightarrow>
             (let min_ratio = dict_get thresholds ''min_compression_ratio'' (PNum 1.5)
              in case py_lt estimated_ratio min_ratio of
                   Inl e \<Rightarrow> Inl e
                 | Inr True \<Rightarrow> Inr False
                 | Inr False \<Rightarrow> Inr True))"

subsection \<open>\<^verbatim>\<open>compression.py\<close>: the ratio estimator and the codec wrapper\<close>

definition estimate_compression_ratio :: "bytes \<Rightarrow> real" where
  "estimate_compression_ratio csv_data =
     (let size_mb = real (length csv_data) / (1024 * 1024)
      in if size_mb < 1 then 2.5
         else if size_mb < 10 then 4.0
         else if size_mb < 100 then 5.5
         else 7.0)"

text \<open>
  \<^verbatim>\<open>SempressCompressor.compress\<close>: the blob of the codec is returned as it is; the ratio
  is computed for the log only, with its guard against an empty blob. The temporary
  file that carries the data to the codec is part of the external call.
\<close>

definition compress_log_ratio :: "bytes \<Rightarrow> bytes \<Rightarrow> real" where
  "compress_log_ratio csv_data compressed_blob =
     (let original_size = length csv_data; compressed_size = length compressed_blob
      in if compressed_size > 0 then real original_size / real compressed_size else 0)"

definition compress :: "codec \<Rightarrow> bytes \<Rightarrow> exn + bytes" where
  "compress c csv_data =
     (case encode_csv c csv_data of
        Inl e \<Rightarrow> Inl e
      | Inr compressed_blob \<Rightarrow>
          (let ratio = compress_log_ratio csv_data compressed_blob
           in Inr compressed_blob))"

definition decompress :: "codec \<Rightarrow> bytes \<Rightarrow> exn + bytes" where
  "decompress c smp_data =
     (case decode_to_csv c smp_data of
        Inl e \<Rightarrow> Inl e
      | Inr csv_data \<Rightarrow> Inr csv_data)"

subsection \<open>\<^verbatim>\<open>filter.py\<close>: the clean filter\<close>

text \<open>Python's true division of two lengths.\<close>

definition py_truediv :: "nat \<Rightarrow> nat \<Rightarrow> exn + real" where
  "py_truediv a b = (if b = 0 then Inl ZeroDivisionError else Inr (real a / real b))"

text \<open>
  The body of the inner \<^verbatim>\<open>try\<close> of \<^verbatim>\<open>clean\<close>: compress, compute the achieved ratio,
  compare it with \<^verbatim>\<open>min_compression_ratio\<close>.
\<close>

definition clean_try_compress :: "(string \<rightharpoonup> py_value) \<Rightarrow> codec \<Rightarrow> bytes \<Rightarrow> exn + bytes" where
  "clean_try_compress thresholds c csv_data =
     (case compress c csv_data of
        Inl e \<Rightarrow> Inl e
      | Inr compressed_data \<Rightarrow>
          (case py_truediv (length csv_data) (length compressed_data) of
             Inl e \<Rightarrow> Inl e
           | Inr actual_ratio \<Rightarrow>
               (case py_lt actual_ratio (dict_get thresholds ''min_compression_ratio'' (PNum 1.5)) of
                  Inl e \<Rightarrow> Inl e
                | Inr True \<Rightarrow> Inr csv_data
                | Inr False \<Rightarrow> Inr compressed_data)))"

text \<open>
  \<^verbatim>\<open>SempressFilter.clean\<close>. The third argument is the result of
  \<^verbatim>\<open>input_stream.read()\<close>. The result is the returned bytes and the calls made to the
  codec. The outer handler returns \<^verbatim>\<open>b''\<close>, the inner one the input.
\<close>

definition clean :: "(string \<rightharpoonup> py_value) \<Rightarrow> codec \<Rightarrow> exn + bytes \<Rightarrow> bytes \<times> codec_call list" where
  "clean thresholds c stream_read =
     (case stream_read of
        Inl e \<Rightarrow> ([], [])
      | Inr csv_data \<Rightarrow>
          if csv_data = [] then ([], [])
          else
            (let estimated_ratio = estimate_compression_ratio csv_data
             in case should_compress thresholds (length csv_data) estimated_ratio of
                  Inl e \<Rightarrow> ([], [])
                | Inr False \<Rightarrow> (csv_data, [])
                | Inr True \<Rightarrow>
                    (case clean_try_compress thresholds c csv_data of
                       Inl e \<Rightarrow> (csv_data, [EncodeCall csv_data])
                     | Inr out \<Rightarrow> (out, [EncodeCall csv_data]))))"

subsection \<open>\<^verbatim>\<open>filter.py\<close>: the smudge filter\<close>

text \<open>
  \<^verbatim>\<open>bytes.decode('utf-8', errors='ignore')\<close>, as a list of code points. A byte that
  cannot start a sequence is dropped; a lead byte whose continuation is missing or invalid
  is dropped together with the continuation bytes accepted so far, and decoding resumes at
  the offending byte.
\<close>

definition is_cont :: "byte \<Rightarrow> bool" where
  "is_cont b = (0x80 \<le> b \<and> b < 0xC0)"

text \<open>The range allowed for the byte after the lead byte \<open>b\<close> of a 3- or 4-byte sequence.\<close>

definition second_ok :: "byte \<Rightarrow> byte \<Rightarrow> bool" where
  "second_ok b c =
     (is_cont c \<and> (b = 0xE0 \<longrightarrow> 0xA0 \<le> c) \<and> (b = 0xED \<longrightarrow> c < 0xA0)
        \<and> (b = 0xF0 \<longrightarrow> 0x90 \<le> c) \<and> (b = 0xF4 \<longrightarrow> c < 0x90))"

definition cont_bits :: "byte \<Rightarrow> nat" where
  "cont_bits c = unat c mod 64"

fun utf8_decode_ignore :: "bytes \<Rightarrow> nat list" where
  "utf8_decode_ignore [] = []"
| "utf8_decode_ignore (b # bs) =
     (if b < 0x80 then unat b # utf8_decode_ignore bs
      else if b < 0xC2 then utf8_decode_ignore bs
      else if b < 0xE0 then
        (case bs of
           [] \<Rightarrow> []
         | c1 # r1 \<Rightarrow>
             if is_cont c1
             then (unat b mod 32 * 64 + cont_bits c1) # utf8_decode_ignore r1
             else utf8_decode_ignore bs)
      else if b < 0xF0 then
        (case bs of
           [] \<Rightarrow> []
         | c1 # r1 \<Rightarrow>
             if \<not> second_ok b c1 then utf8_decode_ignore bs
             else
               (case r1 of
                  [] \<Rightarrow> []
                | c2 # r2 \<Rightarrow>
                    if is_cont c2
                    then (unat b mod 16 * 4096 + cont_bits c1 * 64 + cont_bits c2)
                           # utf8_decode_ignore r2
                    else utf8_decode_ignore r1))
      else if b < 0xF5 then
        (case bs of
           [] \<Rightarrow> []
         | c1 # r1 \<Rightarrow>
             if \<not> second_ok b c1 then utf8_decode_ignore bs
             else
               (case r1 of
                  [] \<Rightarrow> []
                | c2 # r2 \<Rightarrow>
                    if \<not> is_cont c2 then utf8_decode_ignore r1
                    else
                      (case r2 of
                         [] \<Rightarrow> []
                       | c3 # r3 \<Rightarrow>
                           if is_cont c3
                           then (unat b mod 8 * 262144 + cont_bits c1 * 4096
                                   + cont_bits c2 * 64 + cont_bits c3)
                                  # utf8_decode_ignore r3
                           else utf8_decode_ignore r2)))
      else utf8_decode_ignore bs)"

text \<open>
  The heuristic of \<^verbatim>\<open>smudge\<close>:
  \<^verbatim>\<open>input_data[:100].decode('utf-8', errors='ignore').count(',') > 5\<close>.
\<close>

definition looks_like_csv :: "bytes \<Rightarrow> bool" where
  "looks_like_csv input_data =
     (count_list (utf8_decode_ignore (take 100 input_data)) 44 > 5)"

text \<open>
  \<^verbatim>\<open>SempressFilter.smudge\<close>, with the result of \<^verbatim>\<open>input_stream.read()\<close> as its
  argument.
\<close>

definition smudge :: "codec \<Rightarrow> exn + bytes \<Rightarrow> bytes \<times> codec_call list" where
  "smudge c stream_read =
     (case stream_read of
        Inl e \<Rightarrow> ([], [])
      | Inr input_data \<Rightarrow>
          if input_data = [] then ([], [])
          else if looks_like_csv input_data then (input_data, [])
          else
            (case decompress c input_data of
               Inl e \<Rightarrow> (input_data, [DecodeCall input_data])
             | Inr csv_data \<Rightarrow> (csv_data, [DecodeCall input_data])))"

section \<open>\<^verbatim>\<open>quality.py\<close>: the quality report\<close>

subsection \<open>Floats, cells, columns and frames\<close>

text \<open>
  Rounding to the nearest double, ties to even. A non-zero real \<open>x\<close> with
  \<open>2\<^sup>k \<le> \<bar>x\<bar> < 2\<^sup>k\<^sup>+\<^sup>1\<close> is rounded to a multiple of \<open>2\<^sup>k\<^sup>-\<^sup>5\<^sup>2\<close> (of \<open>2\<^sup>-\<^sup>1\<^sup>0\<^sup>7\<^sup>4\<close> in the
  subnormal range, \<open>k < -1022\<close>).
\<close>

definition round_even :: "real \<Rightarrow> int" where
  "round_even x =
     (let f = \<lfloor>x\<rfloor>; d = x - of_int f
      in if d < 1 / 2 then f else if 1 / 2 < d then f + 1 else if even f then f else f + 1)"

definition fl :: "real \<Rightarrow> real" where
  "fl x =
     (if x = 0 then 0
      else let e = max \<lfloor>log 2 \<bar>x\<bar>\<rfloor> (- 1022) - 52
           in of_int (round_even (x / 2 powr of_int e)) * 2 powr of_int e)"

text \<open>
  A float is a real number or \<^verbatim>\<open>nan\<close> (which is also how pandas stores a missing
  value). Infinite values are not modelled. Arithmetic rounds and propagates \<^verbatim>\<open>nan\<close>;
  every comparison with \<^verbatim>\<open>nan\<close> is false. A float literal of the source such as
  \<^verbatim>\<open>0.1\<close> is the double \<open>fl 0.1\<close>.
\<close>

datatype pyfloat = Fin real | NaN

fun fadd :: "pyfloat \<Rightarrow> pyfloat \<Rightarrow> pyfloat" where
  "fadd (Fin a) (Fin b) = Fin (fl (a + b))"
| "fadd _ _ = NaN"

fun fsub :: "pyfloat \<Rightarrow> pyfloat \<Rightarrow> pyfloat" where
  "fsub (Fin a) (Fin b) = Fin (fl (a - b))"
| "fsub _ _ = NaN"

fun fmul :: "pyfloat \<Rightarrow> pyfloat \<Rightarrow> pyfloat" where
  "fmul (Fin a) (Fin b) = Fin (fl (a * b))"
| "fmul _ _ = NaN"

text \<open>Division; the source divides by a float only under the guard \<^verbatim>\<open>mean_val > 0\<close>.\<close>

fun fdiv :: "pyfloat \<Rightarrow> pyfloat \<Rightarrow> pyfloat" where
  "fdiv (Fin a) (Fin b) = (if b = 0 then NaN else Fin (fl (a / b)))"
| "fdiv _ _ = NaN"

fun fabs :: "pyfloat \<Rightarrow> pyfloat" where
  "fabs (Fin a) = Fin \<bar>a\<bar>"
| "fabs NaN = NaN"

fun fsquare :: "pyfloat \<Rightarrow> pyfloat" where
  "fsquare (Fin a) = Fin (fl (a * a))"
| "fsquare NaN = NaN"

fun fsqrt :: "pyfloat \<Rightarrow> pyfloat" where
  "fsqrt (Fin a) = (if a < 0 then NaN else Fin (fl (sqrt a)))"
| "fsqrt NaN = NaN"

fun fmax :: "pyfloat \<Rightarrow> pyfloat \<Rightarrow> pyfloat" where
  "fmax (Fin a) (Fin b) = Fin (max a b)"
| "fmax _ _ = NaN"

fun flt :: "pyfloat \<Rightarrow> pyfloat \<Rightarrow> bool" where
  "flt (Fin a) (Fin b) = (a < b)"
| "flt _ _ = False"

fun feq :: "pyfloat \<Rightarrow> pyfloat \<Rightarrow> bool" where
  "feq (Fin a) (Fin b) = (a = b)"
| "feq _ _ = False"

text \<open>
  The sum of a float array as numpy's \<^verbatim>\<open>add.reduce\<close> computes it (pairwise summation).
  Fewer than 8 values are added one after the other. Up to 128 values are added into 8
  accumulators, block by block, the accumulators are combined as a balanced tree, and the
  values after the last full block are added one after the other. A longer array is
  split at a multiple of 8 near its middle, and the sums of the two parts are added.
\<close>

function add_blocks :: "pyfloat list \<Rightarrow> pyfloat list \<Rightarrow> pyfloat list" where
  "add_blocks r a =
     (if length a < 8 then r
      else add_blocks (map (\<lambda>(x, y). fadd x y) (zip r (take 8 a))) (drop 8 a))"
  by pat_completeness auto
termination
  by (relation "measure (\<lambda>(r, a). length a)") auto

function pairwise_sum :: "pyfloat list \<Rightarrow> pyfloat" where
  "pairwise_sum a =
     (if length a < 8 then foldl fadd (Fin 0) a
      else if length a \<le> 128 then
        (let m = length a - length a mod 8;
             r = add_blocks (take 8 a) (drop 8 (take m a))
         in foldl fadd
              (fadd (fadd (fadd (r ! 0) (r ! 1)) (fadd (r ! 2) (r ! 3)))
                    (fadd (fadd (r ! 4) (r ! 5)) (fadd (r ! 6) (r ! 7))))
              (drop m a))
      else
        (let n2 = length a div 2 - (length a div 2) mod 8
         in fadd (pairwise_sum (take n2 a)) (pairwise_sum (drop n2 a))))"
  by pat_completeness auto
termination
  by (relation "measure length") auto

declare add_blocks.simps [simp del] pairwise_sum.simps [simp del]

text \<open>
  \<^verbatim>\<open>np.mean\<close>: the sum divided by the number of values; \<^verbatim>\<open>nan\<close> (with a warning, no
  exception) on an empty array.
\<close>

definition np_mean :: "pyfloat list \<Rightarrow> pyfloat" where
  "np_mean xs = (if xs = [] then NaN else fdiv (pairwise_sum xs) (Fin (real (length xs))))"

text \<open>\<^verbatim>\<open>np.max\<close>: raises \<^verbatim>\<open>ValueError\<close> on an empty array.\<close>

fun np_max :: "pyfloat list \<Rightarrow> exn + pyfloat" where
  "np_max [] = Inl ValueError"
| "np_max (x # xs) = Inr (foldl fmax x xs)"

text \<open>
  A count (a numpy integer) divided by a Python integer. The counts of the source never
  exceed the divisor, so a zero divisor means \<^verbatim>\<open>0 / 0\<close>, which numpy evaluates to
  \<^verbatim>\<open>nan\<close> with a warning. Counts are below \<open>2\<^sup>5\<^sup>3\<close> and so are doubles as they are.
\<close>

definition np_truediv :: "nat \<Rightarrow> nat \<Rightarrow> pyfloat" where
  "np_truediv a b = (if b = 0 then NaN else Fin (fl (real a / real b)))"

text \<open>The same division when the count is still the Python integer \<^verbatim>\<open>0\<close>.\<close>

definition int_truediv :: "nat \<Rightarrow> nat \<Rightarrow> exn + pyfloat" where
  "int_truediv a b =
     (if b = 0 then Inl ZeroDivisionError else Inr (Fin (fl (real a / real b))))"

text \<open>
  A cell of an \<^verbatim>\<open>object\<close> column is a string or a float (a missing value is the
  float \<^verbatim>\<open>nan\<close>). Element-wise \<^verbatim>\<open>==\<close> compares strings with strings and floats with
  floats; a string never equals a float.
\<close>

datatype cell = Str string | Num pyfloat

fun cell_eq :: "cell \<Rightarrow> cell \<Rightarrow> bool" where
  "cell_eq (Str a) (Str b) = (a = b)"
| "cell_eq (Num x) (Num y) = feq x y"
| "cell_eq _ _ = False"

text \<open>
  A column has dtype \<^verbatim>\<open>object\<close> or a numeric dtype (the dtypes \<^verbatim>\<open>read_csv\<close>
  produces). A frame has a default index of \<open>nrows\<close> rows and named columns; it is
  well formed when every column has \<open>nrows\<close> values and the names are distinct.
\<close>

datatype column = ObjectCol "cell list" | NumericCol "pyfloat list"

record dataframe =
  nrows :: nat
  frame_columns :: "(string \<times> column) list"

fun column_cells :: "column \<Rightarrow> cell list" where
  "column_cells (ObjectCol cs) = cs"
| "column_cells (NumericCol xs) = map Num xs"

definition wf_frame :: "dataframe \<Rightarrow> bool" where
  "wf_frame df =
     (distinct (map fst (frame_columns df))
      \<and> list_all (\<lambda>(name, c). length (column_cells c) = nrows df) (frame_columns df))"

definition shape :: "dataframe \<Rightarrow> nat \<times> nat" where
  "shape df = (nrows df, length (frame_columns df))"

definition column_names :: "dataframe \<Rightarrow> string list" where
  "column_names df = map fst (frame_columns df)"

text \<open>\<^verbatim>\<open>df[col]\<close>.\<close>

definition get_column :: "dataframe \<Rightarrow> string \<Rightarrow> exn + column" where
  "get_column df col =
     (case map_of (frame_columns df) col of None \<Rightarrow> Inl KeyError | Some c \<Rightarrow> Inr c)"

text \<open>
  \<^verbatim>\<open>series.values.astype(float)\<close>. On an \<^verbatim>\<open>object\<close> column each string goes through
  Python's \<^verbatim>\<open>float()\<close>, which is the parameter \<open>to_float\<close> (\<open>None\<close> when it raises
  \<^verbatim>\<open>ValueError\<close>).
\<close>

fun cells_to_float :: "(string \<Rightarrow> pyfloat option) \<Rightarrow> cell list \<Rightarrow> exn + pyfloat list" where
  "cells_to_float to_float [] = Inr []"
| "cells_to_float to_float (Num x # cs) =
     (case cells_to_float to_float cs of Inl e \<Rightarrow> Inl e | Inr xs \<Rightarrow> Inr (x # xs))"
| "cells_to_float to_float (Str s # cs) =
     (case to_float s of
        None \<Rightarrow> Inl ValueError
      | Some x \<Rightarrow>
          (case cells_to_float to_float cs of Inl e \<Rightarrow> Inl e | Inr xs \<Rightarrow> Inr (x # xs)))"

fun astype_float :: "(string \<Rightarrow> pyfloat option) \<Rightarrow> column \<Rightarrow> exn + pyfloat list" where
  "astype_float to_float (NumericCol xs) = Inr xs"
| "astype_float to_float (ObjectCol cs) = cells_to_float to_float cs"

subsection \<open>Issues, metrics and the state of a \<^verbatim>\<open>QualityReport\<close>\<close>

datatype severity = CRITICAL | ERROR | WARNING | INFO

datatype issue_type =
  shape_mismatch | column_mismatch | string_mismatch | minor_error | moderate_error | high_error

text \<open>
  The data an issue's message, details and example are formatted from: the two shapes;
  the missing and the extra column names; the number of changed values, the match
  percentage and the first differing row; the relative error, the mean absolute error
  and the maximal error.
\<close>

datatype detail =
    ShapeChanged "nat \<times> nat" "nat \<times> nat"
  | ColumnsChanged "string set" "string set"
  | ValuesChanged nat pyfloat "(nat \<times> cell \<times> cell) option"
  | Variations pyfloat pyfloat pyfloat

record issue =
  severity :: severity
  issue_type :: issue_type
  column :: "string option"
  detail :: detail

text \<open>The values of the \<^verbatim>\<open>metrics\<close> dictionary.\<close>

datatype metric =
    StringMetric pyfloat
  | NumericMetric pyfloat pyfloat pyfloat pyfloat pyfloat
  | Overall pyfloat

record qstate =
  issues :: "issue list"
  warnings :: "issue list"
  metrics :: "string \<rightharpoonup> metric"

text \<open>\<^verbatim>\<open>QualityReport.__init__\<close>.\<close>

definition init_state :: qstate where
  "init_state = \<lparr>issues = [], warnings = [], metrics = Map.empty\<rparr>"

record report =
  similarity_score :: metric
  report_issues :: "issue list"
  report_warnings :: "issue list"
  column_metrics :: "string \<rightharpoonup> metric"
  has_critical_issues :: bool
  has_errors :: bool
  has_warnings :: bool

text \<open>\<^verbatim>\<open>_build_report\<close>; the default of the similarity score is the integer 0.\<close>

definition build_report :: "qstate \<Rightarrow> report" where
  "build_report st =
     \<lparr>similarity_score = dict_get (metrics st) ''overall_similarity'' (Overall (Fin 0)),
      report_issues = issues st,
      report_warnings = warnings st,
      column_metrics = metrics st,
      has_critical_issues = list_ex (\<lambda>i. severity i = CRITICAL) (issues st),
      has_errors = list_ex (\<lambda>i. severity i = ERROR) (issues st),
      has_warnings = (length (warnings st) > 0)\<rparr>"

subsection \<open>\<^verbatim>\<open>_check_column\<close>\<close>

text \<open>The number of positions where \<^verbatim>\<open>orig == recon\<close> holds.\<close>

definition count_equal :: "cell list \<Rightarrow> cell list \<Rightarrow> nat" where
  "count_equal xs ys = length (filter (\<lambda>(x, y). cell_eq x y) (zip xs ys))"

text \<open>
  \<^verbatim>\<open>(orig != recon).idxmax()\<close> with the two values at that row: the first row where
  the columns differ.
\<close>

fun first_difference :: "nat \<Rightarrow> cell list \<Rightarrow> cell list \<Rightarrow> (nat \<times> cell \<times> cell) option" where
  "first_difference i (x # xs) (y # ys) =
     (if \<not> cell_eq x y then Some (i, x, y) else first_difference (Suc i) xs ys)"
| "first_difference i _ _ = None"

definition check_string_column :: "string \<Rightarrow> cell list \<Rightarrow> cell list \<Rightarrow> qstate \<Rightarrow> qstate" where
  "check_string_column col orig recon st =
     (let matches = count_equal orig recon;
          total = length orig;
          match_pct = fmul (np_truediv matches total) (Fin 100);
          st1 = (if flt match_pct (Fin 100)
                 then st\<lparr>issues := issues st @
                        [\<lparr>severity = ERROR, issue_type = string_mismatch, column = Some col,
                          detail = ValuesChanged (total - matches) match_pct
                                     (first_difference 0 orig recon)\<rparr>]\<rparr>
                 else st)
      in st1\<lparr>metrics := (metrics st1)(col \<mapsto> StringMetric match_pct)\<rparr>)"

text \<open>The error metrics of a numeric column.\<close>

definition abs_errors :: "pyfloat list \<Rightarrow> pyfloat list \<Rightarrow> pyfloat list" where
  "abs_errors orig_vals recon_vals = map (\<lambda>(x, y). fabs (fsub x y)) (zip orig_vals recon_vals)"

definition mean_abs_error :: "pyfloat list \<Rightarrow> pyfloat list \<Rightarrow> pyfloat" where
  "mean_abs_error orig_vals recon_vals = np_mean (abs_errors orig_vals recon_vals)"

definition root_mean_square_error :: "pyfloat list \<Rightarrow> pyfloat list \<Rightarrow> pyfloat" where
  "root_mean_square_error orig_vals recon_vals =
     fsqrt (np_mean (map (\<lambda>(x, y). fsquare (fsub x y)) (zip orig_vals recon_vals)))"

definition relative_error :: "pyfloat list \<Rightarrow> pyfloat list \<Rightarrow> pyfloat" where
  "relative_error orig_vals recon_vals =
     (let mae = mean_abs_error orig_vals recon_vals;
          mean_val = np_mean (map fabs orig_vals)
      in if flt (Fin 0) mean_val then fmul (fdiv mae mean_val) (Fin 100) else Fin 0)"

definition exact_match_pct :: "pyfloat list \<Rightarrow> pyfloat list \<Rightarrow> pyfloat" where
  "exact_match_pct orig_vals recon_vals =
     (let exact_matches = length (filter (\<lambda>(x, y). feq x y) (zip orig_vals recon_vals))
      in fmul (np_truediv exact_matches (length orig_vals)) (Fin 100))"

definition numeric_issue :: "severity \<Rightarrow> issue_type \<Rightarrow> string \<Rightarrow> pyfloat \<Rightarrow> pyfloat \<Rightarrow> pyfloat \<Rightarrow> issue" where
  "numeric_issue sev ty col rel_error mae max_error =
     \<lparr>severity = sev, issue_type = ty, column = Some col,
      detail = Variations rel_error mae max_error\<rparr>"

definition check_numeric_column ::
    "string \<Rightarrow> pyfloat list \<Rightarrow> pyfloat list \<Rightarrow> qstate \<Rightarrow> exn + qstate" where
  "check_numeric_column col orig_vals recon_vals st =
     (let mae = mean_abs_error orig_vals recon_vals;
          rmse = root_mean_square_error orig_vals recon_vals
      in case np_max (abs_errors orig_vals recon_vals) of
           Inl e \<Rightarrow> Inl e
         | Inr max_error \<Rightarrow>
             (let rel_error = relative_error orig_vals recon_vals;
                  exact_pct = exact_match_pct orig_vals recon_vals;
                  st1 = st\<lparr>metrics := (metrics st)
                          (col \<mapsto> NumericMetric mae rmse max_error rel_error exact_pct)\<rparr>
              in Inr
                   (if feq exact_pct (Fin 100) then st1
                    else if flt rel_error (Fin (fl 0.01)) then st1
                    else if flt rel_error (Fin (fl 0.1)) then
                      st1\<lparr>warnings := warnings st1 @
                            [numeric_issue INFO minor_error col rel_error mae max_error]\<rparr>
                    else if flt rel_error (Fin 1.0) then
                      st1\<lparr>warnings := warnings st1 @
                            [numeric_issue WARNING moderate_error col rel_error mae max_error]\<rparr>
                    else
                      st1\<lparr>issues := issues st1 @
                            [numeric_issue ERROR high_error col rel_error mae max_error]\<rparr>)))"

definition check_column ::
    "(string \<Rightarrow> pyfloat option) \<Rightarrow> dataframe \<Rightarrow> dataframe \<Rightarrow> string \<Rightarrow> qstate \<Rightarrow> exn + qstate" where
  "check_column to_float original reconstructed col st =
     (case get_column original col of
        Inl e \<Rightarrow> Inl e
      | Inr orig \<Rightarrow>
          (case get_column reconstructed col of
             Inl e \<Rightarrow> Inl e
           | Inr recon \<Rightarrow>
               (case orig of
                  ObjectCol cs \<Rightarrow> Inr (check_string_column col cs (column_cells recon) st)
                | NumericCol orig_vals \<Rightarrow>
                    (case astype_float to_float recon of
                       Inl e \<Rightarrow> Inl e
                     | Inr recon_vals \<Rightarrow> check_numeric_column col orig_vals recon_vals st))))"

text \<open>The loop \<^verbatim>\<open>for col in self.original.columns: self._check_column(col)\<close>.\<close>

fun check_columns ::
    "(string \<Rightarrow> pyfloat option) \<Rightarrow> dataframe \<Rightarrow> dataframe \<Rightarrow> string list \<Rightarrow> qstate \<Rightarrow> exn + qstate" where
  "check_columns to_float original reconstructed [] st = Inr st"
| "check_columns to_float original reconstructed (col # rest) st =
     (case check_column to_float original reconstructed col st of
        Inl e \<Rightarrow> Inl e
      | Inr st' \<Rightarrow> check_columns to_float original reconstructed rest st')"

subsection \<open>\<^verbatim>\<open>_calculate_similarity\<close> and \<^verbatim>\<open>analyze\<close>\<close>

text \<open>The contribution of one column to \<^verbatim>\<open>exact_matches\<close>.\<close>

definition column_matches ::
    "(string \<Rightarrow> pyfloat option) \<Rightarrow> dataframe \<Rightarrow> dataframe \<Rightarrow> string \<Rightarrow> exn + nat" where
  "column_matches to_float original reconstructed col =
     (case get_column original col of
        Inl e \<Rightarrow> Inl e
      | Inr orig \<Rightarrow>
          (case get_column reconstructed col of
             Inl e \<Rightarrow> Inl e
           | Inr recon \<Rightarrow>
               (case orig of
                  ObjectCol cs \<Rightarrow> Inr (count_equal cs (column_cells recon))
                | NumericCol orig_vals \<Rightarrow>
                    (case astype_float to_float recon of
                       Inl e \<Rightarrow> Inl e
                     | Inr recon_vals \<Rightarrow>
                         Inr (length (filter (\<lambda>d. flt d (Fin (fl (1 / 10 ^ 10))))
                                        (abs_errors orig_vals recon_vals)))))))"

fun sum_matches ::
    "(string \<Rightarrow> pyfloat option) \<Rightarrow> dataframe \<Rightarrow> dataframe \<Rightarrow> string list \<Rightarrow> nat \<Rightarrow> exn + nat" where
  "sum_matches to_float original reconstructed [] exact_matches = Inr exact_matches"
| "sum_matches to_float original reconstructed (col # rest) exact_matches =
     (case column_matches to_float original reconstructed col of
        Inl e \<Rightarrow> Inl e
      | Inr n \<Rightarrow> sum_matches to_float original reconstructed rest (exact_matches + n))"

text \<open>
  \<^verbatim>\<open>exact_matches\<close> starts as the Python integer 0 and becomes a numpy integer with the
  first column added; the final division raises \<^verbatim>\<open>ZeroDivisionError\<close> in the first case
  and yields \<^verbatim>\<open>nan\<close> in the second when the frame has no cells.
\<close>

definition calculate_similarity ::
    "(string \<Rightarrow> pyfloat option) \<Rightarrow> dataframe \<Rightarrow> dataframe \<Rightarrow> qstate \<Rightarrow> exn + qstate" where
  "calculate_similarity to_float original reconstructed st =
     (let total_cells = nrows original * length (frame_columns original)
      in case sum_matches to_float original reconstructed (column_names original) 0 of
           Inl e \<Rightarrow> Inl e
         | Inr exact_matches \<Rightarrow>
             (case (if column_names original = [] then int_truediv exact_matches total_cells
                    else Inr (np_truediv exact_matches total_cells)) of
                Inl e \<Rightarrow> Inl e
              | Inr q \<Rightarrow>
                  Inr (st\<lparr>metrics := (metrics st)
                         (''overall_similarity'' \<mapsto> Overall (fmul q (Fin 100)))\<rparr>)))"

definition analyze ::
    "(string \<Rightarrow> pyfloat option) \<Rightarrow> dataframe \<Rightarrow> dataframe \<Rightarrow> exn + report" where
  "analyze to_float original reconstructed =
     (if shape original \<noteq> shape reconstructed then
        Inr (build_report (init_state\<lparr>issues :=
               [\<lparr>severity = CRITICAL, issue_type = shape_mismatch, column = None,
                 detail = ShapeChanged (shape original) (shape reconstructed)\<rparr>]\<rparr>))
      else
        (let orig_cols = set (column_names original);
             recon_cols = set (column_names reconstructed)
         in if orig_cols \<noteq> recon_cols then
              Inr (build_report (init_state\<lparr>issues :=
                     [\<lparr>severity = CRITICAL, issue_type = column_mismatch, column = None,
                       detail = ColumnsChanged (orig_cols - recon_cols)
                                  (recon_cols - orig_cols)\<rparr>]\<rparr>))
            else
              (case check_columns to_float original reconstructed
                      (column_names original) init_state of
                 Inl e \<Rightarrow> Inl e
               | Inr st \<Rightarrow>
                   (case calculate_similarity to_float original reconstructed st of
                      Inl e \<Rightarrow> Inl e
                    | Inr st' \<Rightarrow> Inr (build_report st')))))"

section \<open>Concrete codecs and frames\<close>

definition failing_codec :: codec where
  "failing_codec =
     \<lparr>encode_csv = (\<lambda>d. Inl CodecFailure), decode_to_csv = (\<lambda>d. Inl CodecFailure)\<rparr>"

definition empty_blob_codec :: codec where
  "empty_blob_codec =
     \<lparr>encode_csv = (\<lambda>d. Inr []), decode_to_csv = (\<lambda>d. Inl CodecFailure)\<rparr>"

definition no_parse :: "string \<Rightarrow> pyfloat option" where
  "no_parse s = None"

definition frame_2x1 :: dataframe where
  "frame_2x1 = \<lparr>nrows = 2, frame_columns = [(''id'', NumericCol [Fin 1, Fin 2])]\<rparr>"

definition frame_2x2 :: dataframe where
  "frame_2x2 = \<lparr>nrows = 2, frame_columns =
      [(''id'', NumericCol [Fin 1, Fin 2]), (''name'', ObjectCol [Str ''a'', Str ''b''])]\<rparr>"

definition frame_1000 :: dataframe where
  "frame_1000 = \<lparr>nrows = 1, frame_columns = [(''amount'', NumericCol [Fin 1000])]\<rparr>"

definition frame_1001 :: dataframe where
  "frame_1001 = \<lparr>nrows = 1, frame_columns = [(''amount'', NumericCol [Fin 1001])]\<rparr>"

definition frame_33 :: dataframe where
  "frame_33 = \<lparr>nrows = 3, frame_columns = [(''amount'', NumericCol [Fin 33, Fin 33, Fin 34])]\<rparr>"

definition frame_34 :: dataframe where
  "frame_34 = \<lparr>nrows = 3, frame_columns = [(''amount'', NumericCol [Fin 34, Fin 33, Fin 34])]\<rparr>"

definition frame_zeros :: dataframe where
  "frame_zeros = \<lparr>nrows = 2, frame_columns = [(''delta'', NumericCol [Fin 0, Fin 0])]\<rparr>"

definition frame_far :: dataframe where
  "frame_far = \<lparr>nrows = 2, frame_columns = [(''delta'', NumericCol [Fin 0, Fin 1000000])]\<rparr>"

definition frame_missing :: dataframe where
  "frame_missing = \<lparr>nrows = 2, frame_columns =
      [(''id'', NumericCol [Fin 1, Fin 2]), (''name'', ObjectCol [Str ''a'', Num NaN])]\<rparr>"

definition frame_header_only :: dataframe where
  "frame_header_only = \<lparr>nrows = 0, frame_columns = [(''name'', ObjectCol [])]\<rparr>"

text \<open>
  Frames without missing values: no cell is \<^verbatim>\<open>nan\<close>. This predicate is not part of
  the source; it delimits the frames on which comparing a frame with itself is exact.
\<close>

fun cell_is_nan :: "cell \<Rightarrow> bool" where
  "cell_is_nan (Num NaN) = True"
| "cell_is_nan _ = False"

definition no_missing :: "dataframe \<Rightarrow> bool" where
  "no_missing df =
     list_all (\<lambda>(name, c). list_all (\<lambda>x. \<not> cell_is_nan x) (column_cells c)) (frame_columns df)"

section \<open>Properties of the filter\<close>

text \<open>
  C4. For a non-empty input that passes the size and ratio pre-checks, a failing encode
  makes the clean filter return the input bytes unchanged; the failure is not propagated
  (the result is a value, and the codec was called once).
\<close>

theorem clean_encode_failure_falls_back:
  assumes "csv_data \<noteq> []"
    and "should_compress thresholds (length csv_data) (estimate_compression_ratio csv_data) = Inr True"
    and "encode_csv c csv_data = Inl e"
  shows "clean thresholds c (Inr csv_data) = (csv_data, [EncodeCall csv_data])"
  using assms by (simp add: clean_def clean_try_compress_def compress_def)

theorem clean_encode_failure_falls_back_witness:
  "clean [''min_size_mb'' \<mapsto> PNum 0] failing_codec (Inr [0x61]) = ([0x61], [EncodeCall [0x61]])"
  using clean_encode_failure_falls_back
    [of "[0x61]" "[''min_size_mb'' \<mapsto> PNum 0]" failing_codec CodecFailure]
  by (simp add: should_compress_def dict_get_def estimate_compression_ratio_def failing_codec_def)

text \<open>
  C5. A non-empty input whose size in MB is below the configured minimum
  (\<^verbatim>\<open>min_size_mb\<close>, 1 when absent) is returned unchanged, and the trace of codec calls
  is empty: encode is never invoked.
\<close>

theorem clean_below_min_size_skips:
  assumes "b \<noteq> []"
    and "dict_get thresholds ''min_size_mb'' (PNum 1) = PNum m"
    and "real (length b) / (1024 * 1024) < m"
  shows "clean thresholds c (Inr b) = (b, [])"
  using assms by (simp add: clean_def should_compress_def)

theorem clean_below_min_size_skips_witness:
  "clean DEFAULT_thresholds failing_codec (Inr [0x61]) = ([0x61], [])"
  using clean_below_min_size_skips [of "[0x61]" DEFAULT_thresholds 1 failing_codec]
  by (simp add: DEFAULT_thresholds_def dict_get_def)

text \<open>
  C9. The estimate depends on the size of the input only, is at least 1, and does not
  decrease when the size grows.
\<close>

theorem estimate_monotone:
  "1 \<le> estimate_compression_ratio a
   \<and> (length a \<le> length b \<longrightarrow> estimate_compression_ratio a \<le> estimate_compression_ratio b)
   \<and> (length a = length b \<longrightarrow> estimate_compression_ratio a = estimate_compression_ratio b)"
  by (auto simp add: estimate_compression_ratio_def Let_def)

theorem estimate_monotone_witness:
  "estimate_compression_ratio [0x61] = 2.5
   \<and> estimate_compression_ratio (replicate 1048576 0x61) = 4
   \<and> estimate_compression_ratio [0x61] \<le> estimate_compression_ratio (replicate 1048576 0x61)"
  using estimate_monotone [of "[0x61]" "replicate 1048576 0x61"]
  by (simp add: estimate_compression_ratio_def)

text \<open>
  C6, as amended. Both filters always return bytes. When the codec stage raises (the
  encode call, the achieved-ratio division, the comparison with the minimum ratio, or
  the decode call), the input bytes are returned. When reading the input or evaluating
  the thresholds raises, the outer handler returns the empty byte string instead.
\<close>

theorem clean_smudge_fallbacks:
  "fst (clean thresholds c (Inl e)) = []
   \<and> (should_compress thresholds (length d) (estimate_compression_ratio d) = Inl e
        \<longrightarrow> fst (clean thresholds c (Inr d)) = [])
   \<and> (d' \<noteq> []
        \<and> should_compress thresholds' (length d') (estimate_compression_ratio d') = Inr True
        \<and> clean_try_compress thresholds' c d' = Inl e
        \<longrightarrow> fst (clean thresholds' c (Inr d')) = d')
   \<and> fst (smudge c (Inl e)) = []
   \<and> (decompress c d'' = Inl e \<longrightarrow> fst (smudge c (Inr d'')) = d'')"
  by (simp add: clean_def smudge_def)

theorem clean_smudge_fallbacks_witness:
  "fst (clean [''min_size_mb'' \<mapsto> PNone] failing_codec (Inr [0x61])) = []
   \<and> fst (clean [''min_size_mb'' \<mapsto> PNum 0] failing_codec (Inr [0x61])) = [0x61]
   \<and> fst (smudge failing_codec (Inr [0x61])) = [0x61]"
  using
    clean_smudge_fallbacks [of "[''min_size_mb'' \<mapsto> PNone]" failing_codec TypeError "[0x61]"
      "[0x61]" "[''min_size_mb'' \<mapsto> PNum 0]" "[0x61]"]
    clean_smudge_fallbacks [of "[''min_size_mb'' \<mapsto> PNone]" failing_codec CodecFailure "[0x61]"
      "[0x61]" "[''min_size_mb'' \<mapsto> PNum 0]" "[0x61]"]
  by (simp add: should_compress_def dict_get_def estimate_compression_ratio_def failing_codec_def
      clean_try_compress_def compress_def decompress_def)

text \<open>
  The claim C6 as stated fails: with \<^verbatim>\<open>min_size_mb: null\<close> in the configuration the
  comparison in \<^verbatim>\<open>should_compress\<close> raises \<^verbatim>\<open>TypeError\<close>, and the clean filter
  returns \<^verbatim>\<open>b''\<close> for the one-byte input \<^verbatim>\<open>b'a'\<close>, not the input.
\<close>

theorem clean_threshold_error_counterexample:
  "should_compress [''min_size_mb'' \<mapsto> PNone] (length [0x61::byte])
       (estimate_compression_ratio [0x61]) = Inl TypeError
   \<and> fst (clean [''min_size_mb'' \<mapsto> PNone] failing_codec (Inr [0x61])) = []
   \<and> fst (clean [''min_size_mb'' \<mapsto> PNone] failing_codec (Inr [0x61])) \<noteq> [0x61]"
  by (simp add: clean_def should_compress_def dict_get_def)

text \<open>
  The decoder and the comma. A comma is the single byte \<open>0x2C\<close>; every byte the
  decoder drops and every code point it builds from several bytes is different from it.
  So the number of commas in the decoded text is the number of \<open>0x2C\<close> bytes.
\<close>

lemma ascii_comma: "(unat b = 44) = (b = (0x2C::byte))"
  by (simp add: word_unat_eq_iff)

lemma high_not_comma: "\<not> b < 0x80 \<Longrightarrow> b \<noteq> (0x2C::byte)"
  by auto

lemma cont_not_comma: "is_cont c \<Longrightarrow> c \<noteq> 0x2C"
  by (auto simp add: is_cont_def)

lemma second_not_comma: "second_ok b c \<Longrightarrow> c \<noteq> 0x2C"
  by (simp add: second_ok_def cont_not_comma)

lemma mod32_lead2: "194 \<le> (n::nat) \<Longrightarrow> n < 224 \<Longrightarrow> 2 \<le> n mod 32"
  by arith

lemma code_point2_not_comma: "\<not> b < 0xC2 \<Longrightarrow> b < (0xE0::byte) \<Longrightarrow> unat b mod 32 * 64 + x \<noteq> 44"
proof -
  assume "\<not> b < 0xC2" "b < (0xE0::byte)"
  then have "194 \<le> unat b" "unat b < 224"
    by (simp_all add: word_less_nat_alt)
  then have "2 \<le> unat b mod 32" by (rule mod32_lead2)
  then have "128 \<le> unat b mod 32 * 64" by simp
  then show ?thesis by simp
qed

lemma mod16_lead3: "225 \<le> (n::nat) \<Longrightarrow> n < 240 \<Longrightarrow> 1 \<le> n mod 16"
  by arith

lemma mod64_second_E0: "160 \<le> (n::nat) \<Longrightarrow> n < 192 \<Longrightarrow> 32 \<le> n mod 64"
  by arith

lemma mod64_second_F0: "144 \<le> (n::nat) \<Longrightarrow> n < 192 \<Longrightarrow> 16 \<le> n mod 64"
  by arith

lemma mod8_lead4: "241 \<le> (n::nat) \<Longrightarrow> n < 245 \<Longrightarrow> 1 \<le> n mod 8"
  by arith

lemma code_point3_not_comma: 
  assumes "\<not> b < 0xE0" "b < (0xF0::byte)" "second_ok b c"
  shows "unat b mod 16 * 4096 + cont_bits c * 64 + x \<noteq> 44"
proof (cases "b = 0xE0")
  case True
  then have "160 \<le> unat c" "unat c < 192"
    using assms(3) by (simp_all add: second_ok_def is_cont_def word_less_nat_alt word_le_nat_alt)
  then have "32 \<le> cont_bits c" unfolding cont_bits_def by (rule mod64_second_E0)
  then have "2048 \<le> cont_bits c * 64" by simp
  then show ?thesis by simp
next
  case False
  then have "unat b \<noteq> 224" by (simp add: word_unat_eq_iff)
  moreover have "224 \<le> unat b" "unat b < 240"
    using assms(1,2) by (simp_all add: word_less_nat_alt)
  ultimately have "1 \<le> unat b mod 16" by (intro mod16_lead3) simp_all
  then have "4096 \<le> unat b mod 16 * 4096" by simp
  then show ?thesis by simp
qed

lemma code_point4_not_comma: 
  assumes "\<not> b < 0xF0" "b < (0xF5::byte)" "second_ok b c"
  shows "unat b mod 8 * 262144 + cont_bits c * 4096 + x \<noteq> 44"
proof (cases "b = 0xF0")
  case True
  then have "144 \<le> unat c" "unat c < 192"
    using assms(3) by (simp_all add: second_ok_def is_cont_def word_less_nat_alt word_le_nat_alt)
  then have "16 \<le> cont_bits c" unfolding cont_bits_def by (rule mod64_second_F0)
  then have "65536 \<le> cont_bits c * 4096" by simp
  then show ?thesis by simp
next
  case False
  then have "unat b \<noteq> 240" by (simp add: word_unat_eq_iff)
  moreover have "240 \<le> unat b" "unat b < 245"
    using assms(1,2) by (simp_all add: word_less_nat_alt)
  ultimately have "1 \<le> unat b mod 8" by (intro mod8_lead4) simp_all
  then have "262144 \<le> unat b mod 8 * 262144" by simp
  then show ?thesis by simp
qed

lemma comma_count_step:
  assumes "b \<noteq> 0x2C"
    and "utf8_decode_ignore (b # bs) = pre @ utf8_decode_ignore rest"
    and "count_list pre 44 = 0"
    and "count_list bs 0x2C = count_list rest 0x2C"
    and "count_list (utf8_decode_ignore rest) 44 = count_list rest 0x2C"
  shows "count_list (utf8_decode_ignore (b # bs)) 44 = count_list (b # bs) 0x2C"
  using assms(1,3,4,5) by (simp del: utf8_decode_ignore.simps add: assms(2))

lemma comma_count_bytes: "count_list (utf8_decode_ignore bs) 44 = count_list bs 0x2C"
proof (induction bs rule: utf8_decode_ignore.induct)
  case 1
  then show ?case by simp
next
  case (2 b bs)
  note step = utf8_decode_ignore.simps(2) [of b bs]
  note [simp del] = utf8_decode_ignore.simps
  show ?case
  proof (cases "b < 0x80")
    case True
    then show ?thesis using 2(1) step by (simp add: ascii_comma)
  next
    case a: False
    then have nb: "b \<noteq> 0x2C" by (rule high_not_comma)
    show ?thesis
    proof (cases "b < 0xC2")
      case True
      then show ?thesis using a nb 2(2) step by simp
    next
      case b: False
      show ?thesis
      proof (cases "b < 0xE0")
        case True
        show ?thesis
        proof (cases bs)
          case Nil
          then show ?thesis using a b True nb step by simp
        next
          case bs: (Cons c1 r1)
          show ?thesis
          proof (cases "is_cont c1")
            case False
            have "utf8_decode_ignore (b # bs) = utf8_decode_ignore bs"
              using step a b True bs False by simp
            then show ?thesis using nb 2(4) [OF a b True bs False] by simp
          next
            case k: True
            show ?thesis
            proof (rule comma_count_step [OF nb, where rest = r1
                  and pre = "[unat b mod 32 * 64 + cont_bits c1]"])
              show "utf8_decode_ignore (b # bs)
                  = [unat b mod 32 * 64 + cont_bits c1] @ utf8_decode_ignore r1"
                using step a b True bs k by simp
              show "count_list [unat b mod 32 * 64 + cont_bits c1] 44 = 0"
                using code_point2_not_comma [OF b True] by simp
              show "count_list bs 0x2C = count_list r1 0x2C"
                using bs cont_not_comma [OF k] by simp
              show "count_list (utf8_decode_ignore r1) 44 = count_list r1 0x2C"
                by (rule 2(3) [OF a b True bs k])
            qed
          qed
        qed
      next
        case c: False
        show ?thesis
        proof (cases "b < 0xF0")
          case True
          show ?thesis
          proof (cases bs)
            case Nil
            then show ?thesis using a b c True nb step by simp
          next
            case bs: (Cons c1 r1)
            show ?thesis
            proof (cases "second_ok b c1")
              case False
              have "utf8_decode_ignore (b # bs) = utf8_decode_ignore bs"
                using step a b c True bs False by simp
              then show ?thesis using nb 2(5) [OF a b c True bs False] by simp
            next
              case ok: True
              then have nc1: "c1 \<noteq> 0x2C" by (rule second_not_comma)
              have ok': "\<not> \<not> second_ok b c1" using ok by simp
              show ?thesis
              proof (cases r1)
                case Nil
                then show ?thesis using step a b c True nb bs ok nc1 by simp
              next
                case r1: (Cons c2 r2)
                show ?thesis
                proof (cases "is_cont c2")
                  case False
                  show ?thesis
                  proof (rule comma_count_step [OF nb, where rest = r1 and pre = "[]"])
                    show "utf8_decode_ignore (b # bs) = [] @ utf8_decode_ignore r1"
                      using step a b c True bs ok r1 False by simp
                    show "count_list [] (44::nat) = 0" by simp
                    show "count_list bs 0x2C = count_list r1 0x2C"
                      using bs nc1 by simp
                    show "count_list (utf8_decode_ignore r1) 44 = count_list r1 0x2C"
                      by (rule 2(7) [OF a b c True bs ok' r1 False])
                  qed
                next
                  case k2: True
                  show ?thesis
                  proof (rule comma_count_step [OF nb, where rest = r2
                        and pre = "[unat b mod 16 * 4096 + cont_bits c1 * 64 + cont_bits c2]"])
                    show "utf8_decode_ignore (b # bs)
                        = [unat b mod 16 * 4096 + cont_bits c1 * 64 + cont_bits c2]
                            @ utf8_decode_ignore r2"
                      using step a b c True bs ok r1 k2 by simp
                    show "count_list [unat b mod 16 * 4096 + cont_bits c1 * 64 + cont_bits c2] 44 = 0"
                      using code_point3_not_comma [OF c True ok] by simp
                    show "count_list bs 0x2C = count_list r2 0x2C"
                      using bs r1 nc1 cont_not_comma [OF k2] by simp
                    show "count_list (utf8_decode_ignore r2) 44 = count_list r2 0x2C"
                      by (rule 2(6) [OF a b c True bs ok' r1 k2])
                  qed
                qed
              qed
            qed
          qed
        next
          case d: False
          show ?thesis
          proof (cases "b < 0xF5")
            case False
            then show ?thesis using a b c d nb 2(12) step by simp
          next
            case True
            show ?thesis
            proof (cases bs)
              case Nil
              then show ?thesis using a b c d True nb step by simp
            next
              case bs: (Cons c1 r1)
              show ?thesis
              proof (cases "second_ok b c1")
                case False
                have "utf8_decode_ignore (b # bs) = utf8_decode_ignore bs"
                  using step a b c d True bs False by simp
                then show ?thesis using nb 2(8) [OF a b c d True bs False] by simp
              next
                case ok: True
                then have nc1: "c1 \<noteq> 0x2C" by (rule second_not_comma)
                have ok': "\<not> \<not> second_ok b c1" using ok by simp
                show ?thesis
                proof (cases r1)
                  case Nil
                  then show ?thesis using step a b c d True nb bs ok nc1 by simp
                next
                  case r1: (Cons c2 r2)
                  show ?thesis
                  proof (cases "is_cont c2")
                    case False
                    show ?thesis
                    proof (rule comma_count_step [OF nb, where rest = r1 and pre = "[]"])
                      show "utf8_decode_ignore (b # bs) = [] @ utf8_decode_ignore r1"
                        using step a b c d True bs ok r1 False by simp
                      show "count_list [] (44::nat) = 0" by simp
                      show "count_list bs 0x2C = count_list r1 0x2C"
                        using bs nc1 by simp
                      show "count_list (utf8_decode_ignore r1) 44 = count_list r1 0x2C"
                        by (rule 2(9) [OF a b c d True bs ok' r1 False])
                    qed
                  next
                    case k2: True
                    then have nc2: "c2 \<noteq> 0x2C" by (rule cont_not_comma)
                    have k2': "\<not> \<not> is_cont c2" using k2 by simp
                    show ?thesis
                    proof (cases r2)
                      case Nil
                      then show ?thesis
                        using step a b c d True nb bs ok nc1 r1 k2 nc2 by simp
                    next
                      case r2: (Cons c3 r3)
                      show ?thesis
                      proof (cases "is_cont c3")
                        case False
                        show ?thesis
                        proof (rule comma_count_step [OF nb, where rest = r2 and pre = "[]"])
                          show "utf8_decode_ignore (b # bs) = [] @ utf8_decode_ignore r2"
                            using step a b c d True bs ok r1 k2 r2 False by simp
                          show "count_list [] (44::nat) = 0" by simp
                          show "count_list bs 0x2C = count_list r2 0x2C"
                            using bs r1 nc1 nc2 by simp
                          show "count_list (utf8_decode_ignore r2) 44 = count_list r2 0x2C"
                            by (rule 2(11) [OF a b c d True bs ok' r1 k2' r2 False])
                        qed
                      next
                        case k3: True
                        show ?thesis
                        proof (rule comma_count_step [OF nb, where rest = r3
                              and pre = "[unat b mod 8 * 262144 + cont_bits c1 * 4096
                                          + cont_bits c2 * 64 + cont_bits c3]"])
                          show "utf8_decode_ignore (b # bs)
                              = [unat b mod 8 * 262144 + cont_bits c1 * 4096
                                   + cont_bits c2 * 64 + cont_bits c3] @ utf8_decode_ignore r3"
                            using step a b c d True bs ok r1 k2 r2 k3 by simp
                          show "count_list [unat b mod 8 * 262144 + cont_bits c1 * 4096
                                   + cont_bits c2 * 64 + cont_bits c3] 44 = 0"
                            using code_point4_not_comma [OF d True ok, of "cont_bits c2 * 64 + cont_bits c3"]
                            by (simp add: add.assoc)
                          show "count_list bs 0x2C = count_list r3 0x2C"
                            using bs r1 r2 nc1 nc2 cont_not_comma [OF k3] by simp
                          show "count_list (utf8_decode_ignore r3) 44 = count_list r3 0x2C"
                            by (rule 2(10) [OF a b c d True bs ok' r1 k2' r2 k3])
                        qed
                      qed
                    qed
                  qed
                qed
              qed
            qed
          qed
        qed
      qed
    qed
  qed
qed

lemma looks_like_csv_bytes:
  "looks_like_csv input_data = (5 < count_list (take 100 input_data) 0x2C)"
  by (simp add: looks_like_csv_def comma_count_bytes)

text \<open>
  C7. On the smudge path, an input with more than 5 commas in its first 100 bytes is
  returned unchanged and decode is not called; any other input on which decode raises
  is returned unchanged.
\<close>

theorem smudge_passthrough:
  "(5 < count_list (take 100 input_data) 0x2C
      \<longrightarrow> looks_like_csv input_data \<and> smudge c (Inr input_data) = (input_data, []))
   \<and> (\<not> 5 < count_list (take 100 blob) 0x2C \<and> decode_to_csv c blob = Inl e
      \<longrightarrow> fst (smudge c (Inr blob)) = blob)"
  by (auto simp add: smudge_def looks_like_csv_bytes decompress_def)

theorem smudge_passthrough_witness:
  "smudge failing_codec
       (Inr [0x61, 0x2C, 0x62, 0x2C, 0x63, 0x2C, 0x64, 0x2C, 0x65, 0x2C, 0x66, 0x2C, 0x67])
     = ([0x61, 0x2C, 0x62, 0x2C, 0x63, 0x2C, 0x64, 0x2C, 0x65, 0x2C, 0x66, 0x2C, 0x67], [])
   \<and> fst (smudge failing_codec (Inr [0x93, 0xA1, 0x61])) = [0x93, 0xA1, 0x61]"
  using
    smudge_passthrough
      [of "[0x61, 0x2C, 0x62, 0x2C, 0x63, 0x2C, 0x64, 0x2C, 0x65, 0x2C, 0x66, 0x2C, 0x67]"
          failing_codec]
    smudge_passthrough [of _ failing_codec "[0x93, 0xA1, 0x61]" CodecFailure]
  by (simp add: failing_codec_def)

text \<open>
  C8. After a successful encode the achieved ratio is \<^verbatim>\<open>len(csv_data) / len(blob)\<close>;
  for an empty blob the division raises \<^verbatim>\<open>ZeroDivisionError\<close> inside the inner
  \<^verbatim>\<open>try\<close>, which is handled like a codec failure: the input is returned.
\<close>

theorem clean_accept_reject:
  assumes "csv_data \<noteq> []"
    and "should_compress thresholds (length csv_data) (estimate_compression_ratio csv_data) = Inr True"
    and "encode_csv c csv_data = Inr blob"
    and "dict_get thresholds ''min_compression_ratio'' (PNum 1.5) = PNum min_ratio"
  shows "py_truediv (length csv_data) (length blob)
           = (if blob = [] then Inl ZeroDivisionError
              else Inr (real (length csv_data) / real (length blob)))
         \<and> fst (clean thresholds c (Inr csv_data))
           = (if blob = [] then csv_data
              else if real (length csv_data) / real (length blob) < min_ratio then csv_data
              else blob)"
  using assms
  by (simp add: clean_def clean_try_compress_def compress_def py_truediv_def Let_def)

theorem clean_accept_reject_witness:
  "fst (clean [''min_size_mb'' \<mapsto> PNum 0] empty_blob_codec (Inr [0x61, 0x62])) = [0x61, 0x62]
   \<and> py_truediv (length [0x61::byte, 0x62]) (length ([]::bytes)) = Inl ZeroDivisionError"
  using clean_accept_reject
    [of "[0x61, 0x62]" "[''min_size_mb'' \<mapsto> PNum 0]" empty_blob_codec "[]" "1.5"]
  by (simp add: should_compress_def dict_get_def estimate_compression_ratio_def
      empty_blob_codec_def)

section \<open>Facts about rounding\<close>

text \<open>
  \<open>fl\<close> is computed from the binade of its argument, and it leaves every double as it
  is: an integer multiple \<open>m \<cdot> 2\<^sup>j\<close> with \<open>\<bar>m\<bar> < 2\<^sup>5\<^sup>3\<close> and \<open>j \<ge> -1074\<close>.
\<close>

lemma fl_zero: "fl 0 = 0"
  by (simp add: fl_def)

lemma round_even_of_int: "round_even (of_int n) = n"
  by (simp add: round_even_def)

lemma fl_normal:
  assumes "2 powr of_int k \<le> \<bar>x\<bar>" and "\<bar>x\<bar> < 2 powr of_int (k + 1)" and "- 1022 \<le> k"
  shows "fl x = of_int (round_even (x / 2 powr of_int (k - 52))) * 2 powr of_int (k - 52)"
proof -
  have pos: "0 < \<bar>x\<bar>"
    using assms(1) by (smt (verit) powr_gt_zero)
  then have "\<lfloor>log 2 \<bar>x\<bar>\<rfloor> = k"
    using assms(1,2) by (simp add: floor_log_eq_powr_iff)
  moreover have "x \<noteq> 0" using pos by auto
  ultimately show ?thesis
    using assms(3) by (simp add: fl_def Let_def max_def)
qed

lemma fl_exact:
  assumes "x = of_int m * 2 powr of_int j" and "\<bar>m\<bar> < 2 ^ 53" and "- 1074 \<le> j"
  shows "fl x = x"
proof (cases "m = 0")
  case True
  then show ?thesis using assms(1) by (simp add: fl_def)
next
  case False
  then have x0: "x \<noteq> 0" using assms(1) by simp
  define k where "k = \<lfloor>log 2 \<bar>x\<bar>\<rfloor>"
  define e where "e = max k (- 1022) - 52"
  have "\<bar>x\<bar> = of_int \<bar>m\<bar> * 2 powr of_int j"
    using assms(1) by (simp add: abs_mult)
  also have "\<dots> < 2 ^ 53 * 2 powr of_int j"
    using assms(2) by (simp add: of_int_less_iff [symmetric] del: of_int_less_iff) 
  also have "\<dots> = 2 powr of_int (53 + j)"
    by (simp add: powr_add powr_numeral [symmetric] del: powr_numeral)
  finally have "\<bar>x\<bar> < 2 powr of_int (53 + j)" .
  then have "log 2 \<bar>x\<bar> < of_int (53 + j)"
    using x0 by (simp add: log_less_iff)
  then have "k < 53 + j"
    unfolding k_def by (simp add: floor_less_iff)
  then have ej: "e \<le> j"
    using assms(3) by (simp add: e_def)
  have "x / 2 powr of_int e = of_int m * 2 powr of_int (j - e)"
    using assms(1) by (simp add: powr_diff)
  also have "\<dots> = of_int (m * 2 ^ nat (j - e))"
    using ej by (simp add: powr_realpow [symmetric])
  finally have "round_even (x / 2 powr of_int e) = m * 2 ^ nat (j - e)"
    by (simp only: round_even_of_int)
  then have "fl x = of_int (m * 2 ^ nat (j - e)) * 2 powr of_int e"
    using x0 by (simp add: fl_def Let_def k_def e_def)
  also have "\<dots> = of_int m * (2 powr of_int (j - e) * 2 powr of_int e)"
    using ej by (simp add: powr_realpow [symmetric])
  also have "\<dots> = x"
    using assms(1) by (simp add: powr_add [symmetric])
  finally show ?thesis .
qed

lemma fl_of_int: "\<bar>m\<bar> < 2 ^ 53 \<Longrightarrow> fl (of_int m) = of_int m"
  using fl_exact [of "of_int m" m 0] by simp

lemma fl_one: "fl 1 = 1"
  using fl_of_int [of 1] by simp

lemma fl_hundred: "fl 100 = 100"
  using fl_of_int [of 100] by simp

lemma fl_literals:
  "fl (1 / 100) = 5764607523034235 / 576460752303423488"
  "fl (1 / 10) = 3602879701896397 / 36028797018963968"
  "fl (1 / 10000000000) = 7737125245533627 / 77371252455336267181195264"
  using fl_normal [of "-7" "1 / 100"] fl_normal [of "-4" "1 / 10"]
    fl_normal [of "-34" "1 / 10000000000"]
  by (simp_all add: round_even_def Let_def powr_neg_numeral)

lemma fadd_zero: "fadd (Fin 0) (Fin 0) = Fin 0"
  by (simp add: fl_zero)

lemma foldl_fadd_zeros: "\<forall>x\<in>set xs. x = Fin 0 \<Longrightarrow> foldl fadd (Fin 0) xs = Fin 0"
  by (induction xs) (simp_all add: fl_zero)

lemma add_blocks_zeros:
  "\<forall>x\<in>set r. x = Fin 0 \<Longrightarrow> \<forall>x\<in>set a. x = Fin 0 \<Longrightarrow> length r = 8 \<Longrightarrow>
     add_blocks r a = replicate 8 (Fin 0)"
proof (induction r a rule: add_blocks.induct)
  case (1 r a)
  show ?case
  proof (cases "length a < 8")
    case True
    then have "add_blocks r a = r" by (subst add_blocks.simps) simp
    moreover have "r = replicate 8 (Fin 0)"
      using "1.prems"(1,3) by (metis replicate_length_same)
    ultimately show ?thesis by simp
  next
    case False
    let ?r = "map (\<lambda>(x, y). fadd x y) (zip r (take 8 a))"
    have z: "\<forall>x\<in>set ?r. x = Fin 0"
    proof
      fix x
      assume "x \<in> set ?r"
      then obtain p q where pq: "(p, q) \<in> set (zip r (take 8 a))" "x = fadd p q"
        by auto
      then have "p \<in> set r" "q \<in> set a"
        by (auto dest: set_zip_leftD set_zip_rightD in_set_takeD)
      then have "p = Fin 0" "q = Fin 0"
        using "1.prems"(1,2) by blast+
      then show "x = Fin 0"
        by (simp add: pq(2) fl_zero)
    qed
    have l: "length ?r = 8" using False "1.prems"(3) by simp
    have a: "\<forall>x\<in>set (drop 8 a). x = Fin 0"
      using "1.prems"(2) by (auto dest: in_set_dropD)
    have "add_blocks r a = add_blocks ?r (drop 8 a)"
      using False by (subst add_blocks.simps) simp
    then show ?thesis using "1.IH" [OF False z a l] by simp
  qed
qed

lemma pairwise_sum_zeros: "\<forall>x\<in>set a. x = Fin 0 \<Longrightarrow> pairwise_sum a = Fin 0"
proof (induction a rule: pairwise_sum.induct)
  case (1 a)
  show ?case
  proof (cases "length a < 8")
    case True
    then show ?thesis
      using "1.prems" by (subst pairwise_sum.simps) (simp add: foldl_fadd_zeros)
  next
    case False
    show ?thesis
    proof (cases "length a \<le> 128")
      case True
      let ?m = "length a - length a mod 8"
      have "add_blocks (take 8 a) (drop 8 (take ?m a)) = replicate 8 (Fin 0)"
        using "1.prems" False
        by (intro add_blocks_zeros) (auto dest: in_set_takeD in_set_dropD)
      moreover have "foldl fadd (Fin 0) (drop ?m a) = Fin 0"
        using "1.prems" by (intro foldl_fadd_zeros) (auto dest: in_set_dropD)
      ultimately show ?thesis
        using False True by (subst pairwise_sum.simps) (simp add: Let_def fl_zero)
    next
      case big: False
      let ?n = "length a div 2 - length a div 2 mod 8"
      have "pairwise_sum (take ?n a) = Fin 0"
        using "1.prems" by (intro "1.IH"(1) [OF False big refl]) (auto dest: in_set_takeD)
      moreover have "pairwise_sum (drop ?n a) = Fin 0"
        using "1.prems" by (intro "1.IH"(2) [OF False big refl]) (auto dest: in_set_dropD)
      ultimately show ?thesis
        using False big by (subst pairwise_sum.simps) (simp add: Let_def fl_zero)
    qed
  qed
qed

lemma np_mean_zeros: "\<forall>x\<in>set xs. x = Fin 0 \<Longrightarrow> \<not> flt (Fin 0) (np_mean xs)"
  by (simp add: np_mean_def pairwise_sum_zeros fl_zero)

lemma fl_numeral: "(numeral n :: int) < 2 ^ 53 \<Longrightarrow> fl (numeral n) = numeral n"
  using fl_of_int [of "numeral n"] by simp

lemma fl_neg_numeral: "(numeral n :: int) < 2 ^ 53 \<Longrightarrow> fl (- numeral n) = - numeral n"
  using fl_of_int [of "- numeral n"] by simp

text \<open>
  Seventeen values: two blocks of eight go into the accumulators, the accumulators are
  combined as a tree, and the last value is added at the end.
\<close>

lemma pairwise_sum_1_to_17: "pairwise_sum (map (\<lambda>n. Fin (real n)) [1..<18]) = Fin 153"
  by (simp add: pairwise_sum.simps add_blocks.simps upt_rec Let_def fl_numeral fl_one fl_zero)

text \<open>Bounds on rounded values.\<close>

lemma round_even_le: "x \<le> of_int N \<Longrightarrow> round_even x \<le> N"
proof -
  assume a: "x \<le> of_int N"
  then have f: "\<lfloor>x\<rfloor> \<le> N" by linarith
  show ?thesis
  proof (cases "\<lfloor>x\<rfloor> = N")
    case True
    then have "x = of_int N" using a by linarith
    then show ?thesis by (simp add: round_even_def)
  next
    case False
    then have "\<lfloor>x\<rfloor> + 1 \<le> N" using f by simp
    then show ?thesis by (simp add: round_even_def Let_def)
  qed
qed

lemma round_even_less: "x < of_int N - 1 / 2 \<Longrightarrow> round_even x \<le> N - 1"
proof -
  assume a: "x < of_int N - 1 / 2"
  then have f: "\<lfloor>x\<rfloor> \<le> N - 1" by linarith
  show ?thesis
  proof (cases "\<lfloor>x\<rfloor> = N - 1")
    case True
    then have "x - of_int \<lfloor>x\<rfloor> < 1 / 2" using a by simp
    then show ?thesis using True by (simp add: round_even_def Let_def)
  next
    case False
    then have "\<lfloor>x\<rfloor> + 1 \<le> N - 1" using f by simp
    then show ?thesis by (simp add: round_even_def Let_def)
  qed
qed

lemma round_even_nonneg: "0 \<le> x \<Longrightarrow> 0 \<le> round_even x"
  by (simp add: round_even_def Let_def)

lemma fl_nonneg: "0 \<le> x \<Longrightarrow> 0 \<le> fl x"
  by (simp add: fl_def Let_def round_even_nonneg)

text \<open>A positive value below a power of two is rounded to at most that power.\<close>

lemma fl_le_power:
  assumes "0 < x" and "x < 2 powr of_int K" and "- 1022 \<le> K"
  shows "fl x \<le> 2 powr of_int K"
proof -
  define k where "k = \<lfloor>log 2 \<bar>x\<bar>\<rfloor>"
  define e where "e = max k (- 1022) - 52"
  have "log 2 x < of_int K"
    using assms(1,2) by (simp add: log_less_iff)
  then have "k < K"
    using assms(1) unfolding k_def by (simp add: floor_less_iff)
  then have eK: "e \<le> K"
    using assms(3) by (simp add: e_def)
  have "x / 2 powr of_int e < 2 powr of_int K / 2 powr of_int e"
    using assms(2) by (simp add: divide_strict_right_mono)
  also have "\<dots> = 2 powr of_int (K - e)"
    by (simp add: powr_diff)
  also have "\<dots> = of_int (2 ^ nat (K - e))"
    using eK by (simp add: powr_realpow [symmetric])
  finally have "round_even (x / 2 powr of_int e) \<le> 2 ^ nat (K - e)"
    by (intro round_even_le) simp
  then have "real_of_int (round_even (x / 2 powr of_int e)) \<le> real_of_int (2 ^ nat (K - e))"
    by (simp only: of_int_le_iff)
  then have "real_of_int (round_even (x / 2 powr of_int e)) * 2 powr of_int e
      \<le> real_of_int (2 ^ nat (K - e)) * 2 powr of_int e"
    by (rule mult_right_mono) simp
  also have "\<dots> = 2 powr of_int (K - e) * 2 powr of_int e"
    using eK by (simp add: powr_realpow [symmetric])
  also have "\<dots> = 2 powr of_int K"
    by (simp add: powr_add [symmetric])
  finally show ?thesis
    using assms(1) by (simp add: fl_def Let_def k_def e_def)
qed

text \<open>A proper fraction of counts is rounded to a double below 1.\<close>

lemma fl_proper_fraction:
  assumes "m < t" and "t < 2 ^ 53"
  shows "fl (real m / real t) \<le> 1 - 1 / 2 ^ 53"
proof (cases "m = 0")
  case True
  then show ?thesis by (simp add: fl_zero)
next
  case False
  define x where "x = real m / real t"
  have tpos: "0 < real t" using assms(1) by simp
  have xpos: "0 < x" using False tpos by (simp add: x_def)
  have "real m \<le> real t - 1" using assms(1) by linarith
  then have "x \<le> (real t - 1) / real t"
    unfolding x_def using tpos by (simp add: divide_right_mono)
  then have x1: "x \<le> 1 - 1 / real t"
    using tpos by (simp add: diff_divide_distrib)
  have "real t < 2 ^ 53" using assms(2) by (simp add: of_nat_less_numeral_power_cancel_iff)
  then have t53: "1 / 2 ^ 53 < 1 / real t"
    using tpos by (simp add: frac_less2)
  have xlt: "x < 1"
    using x1 t53 by (smt (verit) zero_less_divide_1_iff zero_less_numeral zero_less_power)
  show ?thesis
  proof (cases "x < 1 / 2")
    case True
    have "fl x \<le> 2 powr of_int (- 1)"
      using xpos True by (intro fl_le_power) (simp_all add: powr_minus_divide)
    then show ?thesis by (simp add: x_def powr_minus_divide)
  next
    case half: False
    have "fl x = of_int (round_even (x / 2 powr of_int (- 1 - 52))) * 2 powr of_int (- 1 - 52)"
      using half xpos xlt by (intro fl_normal) (simp_all add: powr_minus_divide)
    then have f: "fl x = of_int (round_even (x * 2 ^ 53)) / 2 ^ 53"
      by (simp add: powr_neg_numeral)
    have "x * 2 ^ 53 \<le> (1 - 1 / real t) * 2 ^ 53"
      using x1 by (simp add: mult_right_mono)
    also have "\<dots> < (1 - 1 / 2 ^ 53) * 2 ^ 53"
      using t53 by (simp add: mult_strict_right_mono)
    finally have "x * 2 ^ 53 < of_int (2 ^ 53) - 1 / 2"
      by simp
    then have "round_even (x * 2 ^ 53) \<le> 2 ^ 53 - 1"
      by (rule round_even_less)
    then have "real_of_int (round_even (x * 2 ^ 53)) \<le> real_of_int (2 ^ 53 - 1)"
      by (simp only: of_int_le_iff)
    then have "real_of_int (round_even (x * 2 ^ 53)) \<le> 2 ^ 53 - 1"
      by simp
    then show ?thesis
      using f by (simp add: x_def divide_simps)
  qed
qed

text \<open>So the percentage computed from it is below 100.\<close>

lemma fl_percent_below_100:
  assumes "0 \<le> q" and "q \<le> 1 - 1 / 2 ^ 53"
  shows "fl (q * 100) < 100"
proof -
  define y where "y = q * 100"
  have y1: "y \<le> 100 - 100 / 2 ^ 53" using assms(2) by (simp add: y_def)
  show ?thesis
  proof (cases "y = 0")
    case True
    then show ?thesis by (simp add: y_def fl_zero)
  next
    case False
    then have ypos: "0 < y" using assms(1) by (simp add: y_def)
    show ?thesis
    proof (cases "y < 64")
      case True
      have "fl y \<le> 2 powr of_int 6"
        using ypos True by (intro fl_le_power) simp_all
      then show ?thesis by (simp add: y_def)
    next
      case big: False
      have "fl y = of_int (round_even (y / 2 powr of_int (6 - 52))) * 2 powr of_int (6 - 52)"
        using big ypos y1 by (intro fl_normal) simp_all
      then have f: "fl y = of_int (round_even (y * 2 ^ 46)) / 2 ^ 46"
        by (simp add: powr_neg_numeral)
      have "y * 2 ^ 46 \<le> (100 - 100 / 2 ^ 53) * 2 ^ 46"
        using y1 by (simp add: mult_right_mono)
      also have "\<dots> < of_int (100 * 2 ^ 46) - 1 / 2"
        by simp
      finally have "round_even (y * 2 ^ 46) \<le> 100 * 2 ^ 46 - 1"
        by (rule round_even_less)
      then have "real_of_int (round_even (y * 2 ^ 46)) \<le> real_of_int (100 * 2 ^ 46 - 1)"
        by (simp only: of_int_le_iff)
      then have "real_of_int (round_even (y * 2 ^ 46)) \<le> 100 * 2 ^ 46 - 1"
        by simp
      then have "fl y \<le> (100 * 2 ^ 46 - 1) / 2 ^ 46"
        using f by (simp add: divide_right_mono)
      then show ?thesis by (simp add: y_def)
    qed
  qed
qed

lemma percent_below_100:
  assumes "m < t" and "t < 2 ^ 53"
  shows "\<exists>p. fmul (np_truediv m t) (Fin 100) = Fin p \<and> p < 100"
proof -
  have "0 \<le> fl (real m / real t)"
    by (intro fl_nonneg) simp
  then have "fl (fl (real m / real t) * 100) < 100"
    using fl_proper_fraction [OF assms] by (rule fl_percent_below_100)
  then show ?thesis
    using assms(1) by (simp add: np_truediv_def)
qed

text \<open>The values of \<open>fl\<close> used in the examples below.\<close>

lemma fl_ints:
  "fl (- 1) = - 1" "fl 2 = 2" "fl 3 = 3" "fl 33 = 33" "fl 66 = 66" "fl 1000 = 1000" "fl 50 = 50" "fl 75 = 75"
  "fl 1000000 = 1000000" "fl (- 1000000) = - 1000000" "fl 500000 = 500000"
  using fl_of_int [of "-1"] fl_of_int [of 2] fl_of_int [of 3] fl_of_int [of 33] fl_of_int [of 66]
    fl_of_int [of 1000] fl_of_int [of 50] fl_of_int [of 75] fl_of_int [of 1000000]
    fl_of_int [of "-1000000"] fl_of_int [of 500000]
  by simp_all

lemma fl_halves: "fl (1 / 2) = 1 / 2" "fl (3 / 2) = 3 / 2" "fl (3 / 4) = 3 / 4"
  using fl_exact [of "1 / 2" 1 "-1"] fl_exact [of "3 / 2" 3 "-1"] fl_exact [of "3 / 4" 3 "-2"]
  by (simp_all add: powr_neg_numeral)

lemma fl_third: "fl (1 / 3) = 6004799503160661 / 18014398509481984"
  using fl_normal [of "-2" "1 / 3"]
  by (simp add: round_even_def Let_def powr_neg_numeral)

lemma fl_100_thirds: "fl (100 / 3) = 4691249611844267 / 140737488355328"
  using fl_normal [of "5" "100 / 3"]
  by (simp add: round_even_def Let_def powr_neg_numeral)

lemma fl_quotient_33_34: "fl (316042079113719 / 31604207911371904) = 2882303761517117 / 288230376151711744"
  using fl_normal [of "-7" "316042079113719 / 31604207911371904"]
  by (simp add: round_even_def Let_def powr_neg_numeral)

lemma fl_percent_33_34: "fl (72057594037927925 / 72057594037927936) = 9007199254740991 / 9007199254740992"
  using fl_normal [of "-1" "72057594037927925 / 72057594037927936"]
  by (simp add: round_even_def Let_def powr_neg_numeral)

lemma fl_two_thirds: "fl (2 / 3) = 6004799503160661 / 9007199254740992"
  using fl_normal [of "-1" "2 / 3"]
  by (simp add: round_even_def Let_def powr_neg_numeral)

lemma fl_exact_pct_33_34: "fl (150119987579016525 / 2251799813685248) = 2345624805922133 / 35184372088832"
  using fl_normal [of "6" "150119987579016525 / 2251799813685248"]
  by (simp add: round_even_def Let_def powr_neg_numeral)

lemma fl_thousandth: "fl (1 / 1000) = 1152921504606847 / 1152921504606846976"
  using fl_normal [of "-10" "1 / 1000"]
  by (simp add: round_even_def Let_def powr_neg_numeral)

lemma fl_thousandth_percent: "fl (28823037615171175 / 288230376151711744) = 3602879701896397 / 36028797018963968"
  using fl_normal [of "-4" "28823037615171175 / 288230376151711744"]
  by (simp add: round_even_def Let_def powr_neg_numeral)

section \<open>Properties of the quality report\<close>

text \<open>
  C3. When the shapes differ, \<^verbatim>\<open>analyze\<close> returns at once: the report holds exactly
  one CRITICAL \<^verbatim>\<open>shape_mismatch\<close> issue, no warnings and no metrics at all (no column
  was checked, no similarity was computed), and the similarity score is the default 0
  of \<^verbatim>\<open>metrics.get\<close>, not a computed value.
\<close>

theorem analyze_shape_mismatch:
  assumes "shape original \<noteq> shape reconstructed"
  shows "analyze to_float original reconstructed =
           Inr \<lparr>similarity_score = Overall (Fin 0),
                report_issues =
                  [\<lparr>severity = CRITICAL, issue_type = shape_mismatch, column = None,
                    detail = ShapeChanged (shape original) (shape reconstructed)\<rparr>],
                report_warnings = [],
                column_metrics = Map.empty,
                has_critical_issues = True,
                has_errors = False,
                has_warnings = False\<rparr>"
  using assms by (simp add: analyze_def build_report_def init_state_def dict_get_def)

theorem analyze_shape_mismatch_witness:
  "analyze no_parse frame_2x1 frame_2x2 =
           Inr \<lparr>similarity_score = Overall (Fin 0),
                report_issues =
                  [\<lparr>severity = CRITICAL, issue_type = shape_mismatch, column = None,
                    detail = ShapeChanged (2, 1) (2, 2)\<rparr>],
                report_warnings = [],
                column_metrics = Map.empty,
                has_critical_issues = True,
                has_errors = False,
                has_warnings = False\<rparr>"
  using analyze_shape_mismatch [of frame_2x1 frame_2x2 no_parse]
  by (simp add: shape_def frame_2x1_def frame_2x2_def)

lemma np_max_abs_errors:
  "xs \<noteq> [] \<Longrightarrow> length ys = length xs \<Longrightarrow> \<exists>m. np_max (abs_errors xs ys) = Inr m"
  by (cases xs; cases ys) (simp_all add: abs_errors_def)

text \<open>
  C1. For a numeric column (with at least one row) the check appends nothing when every
  value matches exactly; otherwise the relative error \<open>r\<close> decides, against the float
  literals \<^verbatim>\<open>0.01\<close>, \<^verbatim>\<open>0.1\<close> and \<^verbatim>\<open>1.0\<close> of the source: nothing below \<^verbatim>\<open>0.01\<close>, an INFO
  warning in \<open>[0.01, 0.1)\<close>, a WARNING warning in \<open>[0.1, 1)\<close> (so a relative error equal to
  the float \<^verbatim>\<open>0.1\<close> is a WARNING), and an ERROR issue from 1 on.
\<close>

theorem numeric_column_tiers:
  assumes "get_column original col = Inr (NumericCol xs)"
    and "get_column reconstructed col = Inr recon"
    and "astype_float to_float recon = Inr ys"
    and "xs \<noteq> []" and "length ys = length xs"
  shows "\<exists>st'. check_column to_float original reconstructed col st = Inr st'
     \<and> (feq (exact_match_pct xs ys) (Fin 100)
          \<longrightarrow> issues st' = issues st \<and> warnings st' = warnings st)
     \<and> (\<not> feq (exact_match_pct xs ys) (Fin 100) \<and> relative_error xs ys = Fin r \<longrightarrow>
            (r < fl 0.01 \<longrightarrow> issues st' = issues st \<and> warnings st' = warnings st)
          \<and> (fl 0.01 \<le> r \<and> r < fl 0.1 \<longrightarrow> issues st' = issues st
                \<and> (\<exists>w. warnings st' = warnings st @ [w] \<and> severity w = INFO
                       \<and> issue_type w = minor_error \<and> column w = Some col))
          \<and> (fl 0.1 \<le> r \<and> r < 1 \<longrightarrow> issues st' = issues st
                \<and> (\<exists>w. warnings st' = warnings st @ [w] \<and> severity w = WARNING
                       \<and> issue_type w = moderate_error \<and> column w = Some col))
          \<and> (1 \<le> r \<longrightarrow> warnings st' = warnings st
                \<and> (\<exists>i. issues st' = issues st @ [i] \<and> severity i = ERROR
                       \<and> issue_type i = high_error \<and> column i = Some col)))"
proof -
  obtain m where m: "np_max (abs_errors xs ys) = Inr m"
    using np_max_abs_errors assms(4,5) by blast
  show ?thesis
    using assms(1,2,3) m
    by (auto simp add: check_column_def check_numeric_column_def Let_def numeric_issue_def
        fl_literals)
qed

text \<open>
  Two columns, evaluated with the rounding of the source. For 1000 against 1001 the
  relative error is \<open>fl (fl (1 / 1000) * 100)\<close>, which is the float \<^verbatim>\<open>0.1\<close> itself. For
  33, 33, 34 against 34, 33, 34 it is \<open>1 - 2\<^sup>-\<^sup>5\<^sup>3\<close>, the double below 1, although the exact
  quotient is 1: the column is a WARNING, not an ERROR.
\<close>

lemma relative_error_1000: "relative_error [Fin 1000] [Fin 1001] = Fin (fl 0.1)"
  by (simp add: relative_error_def mean_abs_error_def abs_errors_def np_mean_def
      pairwise_sum.simps fl_zero fl_one fl_ints fl_thousandth fl_thousandth_percent fl_literals)

lemma exact_match_pct_1000: "exact_match_pct [Fin 1000] [Fin 1001] = Fin 0"
  by (simp add: exact_match_pct_def np_truediv_def fl_zero)

lemma relative_error_33_34:
  "relative_error [Fin 33, Fin 33, Fin 34] [Fin 34, Fin 33, Fin 34]
     = Fin (9007199254740991 / 9007199254740992)"
  by (simp add: relative_error_def mean_abs_error_def abs_errors_def np_mean_def
      pairwise_sum.simps fl_zero fl_one fl_hundred fl_ints fl_third fl_100_thirds
      fl_quotient_33_34 fl_percent_33_34)

lemma exact_match_pct_33_34:
  "exact_match_pct [Fin 33, Fin 33, Fin 34] [Fin 34, Fin 33, Fin 34]
     = Fin (2345624805922133 / 35184372088832)"
  by (simp add: exact_match_pct_def np_truediv_def fl_two_thirds fl_exact_pct_33_34)

theorem numeric_column_tiers_witness:
  "relative_error [Fin 1000] [Fin 1001] = Fin (fl 0.1)
   \<and> (\<exists>st'. check_column no_parse frame_1000 frame_1001 ''amount'' init_state = Inr st'
         \<and> issues st' = []
         \<and> (\<exists>w. warnings st' = [w] \<and> severity w = WARNING \<and> issue_type w = moderate_error
                \<and> column w = Some ''amount''))
   \<and> relative_error [Fin 33, Fin 33, Fin 34] [Fin 34, Fin 33, Fin 34]
        = Fin (9007199254740991 / 9007199254740992)
   \<and> (\<exists>st'. check_column no_parse frame_33 frame_34 ''amount'' init_state = Inr st'
         \<and> issues st' = []
         \<and> (\<exists>w. warnings st' = [w] \<and> severity w = WARNING \<and> issue_type w = moderate_error
                \<and> column w = Some ''amount''))"
  using
    numeric_column_tiers [of frame_1000 "''amount''" "[Fin 1000]" frame_1001
      "NumericCol [Fin 1001]" no_parse "[Fin 1001]" init_state "fl 0.1"]
    numeric_column_tiers [of frame_33 "''amount''" "[Fin 33, Fin 33, Fin 34]" frame_34
      "NumericCol [Fin 34, Fin 33, Fin 34]" no_parse "[Fin 34, Fin 33, Fin 34]" init_state
      "9007199254740991 / 9007199254740992"]
  by (simp add: get_column_def frame_1000_def frame_1001_def frame_33_def frame_34_def
      relative_error_1000 exact_match_pct_1000 relative_error_33_34 exact_match_pct_33_34
      init_state_def fl_literals)

text \<open>Facts about a column whose original values are all zero.\<close>

lemma relative_error_zeros:
  assumes "\<forall>x\<in>set xs. x = Fin 0"
  shows "relative_error xs ys = Fin 0"
proof -
  have "\<forall>x\<in>set (map fabs xs). x = Fin 0"
    using assms by auto
  then have "\<not> flt (Fin 0) (np_mean (map fabs xs))"
    by (rule np_mean_zeros)
  then show ?thesis
    by (simp add: relative_error_def Let_def)
qed

lemma abs_errors_zeros:
  "length ys = length xs \<Longrightarrow> \<forall>x\<in>set xs. x = Fin 0 \<Longrightarrow>
     abs_errors xs ys = map (\<lambda>y. fabs (fsub (Fin 0) y)) ys"
  by (induction ys xs rule: list_induct2) (simp_all add: abs_errors_def)

lemma exact_zeros:
  "length ys = length xs \<Longrightarrow> \<forall>x\<in>set xs. x = Fin 0 \<Longrightarrow>
     filter (\<lambda>(x, y). feq x y) (zip xs ys)
       = zip (replicate (length (filter (feq (Fin 0)) ys)) (Fin 0)) (filter (feq (Fin 0)) ys)"
  by (induction ys xs rule: list_induct2) simp_all

lemma exact_match_pct_zeros:
  "length ys = length xs \<Longrightarrow> \<forall>x\<in>set xs. x = Fin 0 \<Longrightarrow>
     exact_match_pct xs ys
       = fmul (np_truediv (length (filter (feq (Fin 0)) ys)) (length ys)) (Fin 100)"
  by (simp add: exact_match_pct_def exact_zeros)

text \<open>The number of matching cells that the similarity score is computed from.\<close>

lemma column_matches_le:
  assumes "wf_frame original"
    and "column_matches to_float original reconstructed c = Inr n"
  shows "n \<le> nrows original"
proof -
  obtain oc where oc: "map_of (frame_columns original) c = Some oc"
    using assms(2) by (auto simp add: column_matches_def get_column_def split: option.splits)
  then have "(c, oc) \<in> set (frame_columns original)"
    by (rule map_of_SomeD)
  then have len: "length (column_cells oc) = nrows original"
    using assms(1) by (auto simp add: wf_frame_def list_all_iff)
  show ?thesis
  proof (cases oc)
    case (ObjectCol cs)
    then have "n \<le> length cs"
      using assms(2) oc
      by (auto simp add: column_matches_def get_column_def count_equal_def
          split: option.splits sum.splits intro: order_trans [OF length_filter_le])
    then show ?thesis using len ObjectCol by simp
  next
    case (NumericCol xs)
    then have "n \<le> length xs"
      using assms(2) oc
      by (auto simp add: column_matches_def get_column_def abs_errors_def
          split: option.splits sum.splits intro: order_trans [OF length_filter_le])
    then show ?thesis using len NumericCol by simp
  qed
qed

lemma sum_matches_le:
  assumes "wf_frame original"
  shows "sum_matches to_float original reconstructed names acc = Inr m
     \<Longrightarrow> m \<le> acc + nrows original * length names"
proof (induction names arbitrary: acc)
  case Nil
  then show ?case by simp
next
  case (Cons c rest)
  then obtain n where n: "column_matches to_float original reconstructed c = Inr n"
      and r: "sum_matches to_float original reconstructed rest (acc + n) = Inr m"
    by (auto split: sum.splits)
  have "n \<le> nrows original" using column_matches_le [OF assms n] .
  moreover have "m \<le> acc + n + nrows original * length rest" using Cons.IH [OF r] .
  ultimately show ?case by simp
qed

lemma sum_matches_column:
  assumes "wf_frame original"
    and "column_matches to_float original reconstructed col = Inr g"
    and "g + bad \<le> nrows original"
  shows "col \<in> set names \<Longrightarrow> sum_matches to_float original reconstructed names acc = Inr m
     \<Longrightarrow> m + bad \<le> acc + nrows original * length names"
proof (induction names arbitrary: acc)
  case Nil
  then show ?case by simp
next
  case (Cons c rest)
  then obtain n where n: "column_matches to_float original reconstructed c = Inr n"
      and r: "sum_matches to_float original reconstructed rest (acc + n) = Inr m"
    by (auto split: sum.splits)
  show ?case
  proof (cases "c = col")
    case True
    then have "n = g" using n assms(2) by simp
    moreover have "m \<le> acc + n + nrows original * length rest"
      using sum_matches_le [OF assms(1) r] .
    ultimately show ?thesis using assms(3) by simp
  next
    case False
    then have "col \<in> set rest" using Cons.prems(1) by simp
    then have "m + bad \<le> acc + n + nrows original * length rest"
      using Cons.IH r by blast
    moreover have "n \<le> nrows original" using column_matches_le [OF assms(1) n] .
    ultimately show ?thesis by simp
  qed
qed

lemma analyze_similarity_score:
  assumes "analyze to_float original reconstructed = Inr r"
    and "shape original = shape reconstructed"
    and "set (column_names original) = set (column_names reconstructed)"
    and "column_names original \<noteq> []"
  shows "\<exists>m. sum_matches to_float original reconstructed (column_names original) 0 = Inr m
     \<and> similarity_score r
         = Overall (fmul (np_truediv m (nrows original * length (frame_columns original)))
                      (Fin 100))"
  using assms
  by (auto simp add: analyze_def calculate_similarity_def build_report_def dict_get_def Let_def
      split: sum.splits if_splits)

lemma check_column_zeros_far:
  "check_column no_parse frame_zeros frame_far ''delta'' init_state
     = Inr \<lparr>issues = [], warnings = [],
            metrics = [''delta'' \<mapsto> NumericMetric (Fin 500000)
                         (root_mean_square_error [Fin 0, Fin 0] [Fin 0, Fin 1000000])
                         (Fin 1000000) (Fin 0) (Fin 50)]\<rparr>"
  by (simp add: frame_zeros_def frame_far_def check_column_def get_column_def
      check_numeric_column_def mean_abs_error_def abs_errors_def np_mean_def
      relative_error_def exact_match_pct_def np_truediv_def init_state_def
      pairwise_sum.simps fl_zero fl_ints fl_halves fl_literals)

lemma calculate_similarity_zeros_far:
  "calculate_similarity no_parse frame_zeros frame_far st
     = Inr (st\<lparr>metrics := (metrics st)(''overall_similarity'' \<mapsto> Overall (Fin 50))\<rparr>)"
  by (simp add: frame_zeros_def frame_far_def calculate_similarity_def column_names_def
      column_matches_def get_column_def abs_errors_def np_truediv_def fl_zero fl_ints fl_halves
      fl_literals)

lemma analyze_zeros_far:
  "analyze no_parse frame_zeros frame_far =
     Inr \<lparr>similarity_score = Overall (Fin 50),
          report_issues = [],
          report_warnings = [],
          column_metrics =
            [''delta'' \<mapsto> NumericMetric (Fin 500000)
                (root_mean_square_error [Fin 0, Fin 0] [Fin 0, Fin 1000000])
                (Fin 1000000) (Fin 0) (Fin 50),
             ''overall_similarity'' \<mapsto> Overall (Fin 50)],
          has_critical_issues = False,
          has_errors = False,
          has_warnings = False\<rparr>"
proof -
  have n: "column_names frame_zeros = [''delta'']" "column_names frame_far = [''delta'']"
    by (simp_all add: column_names_def frame_zeros_def frame_far_def)
  have s: "shape frame_zeros = shape frame_far"
    by (simp add: shape_def frame_zeros_def frame_far_def)
  show ?thesis
    by (simp add: analyze_def n s check_column_zeros_far calculate_similarity_zeros_far
        build_report_def dict_get_def)
qed

text \<open>
  C10. For a numeric column whose original values are all zero the relative error is
  defined as 0, and the check appends no issue and no warning whatever the reconstructed
  values are. The difference shows in the metrics only (the errors are the absolute
  reconstructed values, so the mean absolute error is their mean and the maximal error
  their maximum, and the exact match percentage counts the reconstructed zeros) and in
  the similarity score of the report: the score is computed from a number \<open>m\<close> of
  matching cells, every cell of the column that is off by \<^verbatim>\<open>1e-10\<close> or more is
  missing from \<open>m\<close>, and with one such cell the score is below 100 (for frames of fewer
  than \<open>2\<^sup>5\<^sup>3\<close> cells).
\<close>

theorem all_zero_original_no_issue:
  assumes "get_column original col = Inr (NumericCol xs)"
    and "get_column reconstructed col = Inr recon"
    and "astype_float to_float recon = Inr ys"
    and "xs \<noteq> []" and "length ys = length xs"
    and "\<forall>x\<in>set xs. x = Fin 0"
  shows "relative_error xs ys = Fin 0
     \<and> abs_errors xs ys = map (\<lambda>y. fabs (fsub (Fin 0) y)) ys
     \<and> (\<exists>st' max_error.
           check_column to_float original reconstructed col st = Inr st'
         \<and> issues st' = issues st \<and> warnings st' = warnings st
         \<and> np_max (abs_errors xs ys) = Inr max_error
         \<and> metrics st' col = Some (NumericMetric (np_mean (abs_errors xs ys))
              (root_mean_square_error xs ys) max_error (Fin 0)
              (fmul (np_truediv (length (filter (feq (Fin 0)) ys)) (length ys)) (Fin 100))))
     \<and> (wf_frame original \<and> shape original = shape reconstructed
          \<and> set (column_names original) = set (column_names reconstructed)
          \<and> analyze to_float original reconstructed = Inr r
        \<longrightarrow> (\<exists>m. similarity_score r
                   = Overall (fmul (np_truediv m (nrows original * length (frame_columns original)))
                                (Fin 100))
               \<and> m + length (filter (\<lambda>d. \<not> flt d (Fin (fl (1 / 10 ^ 10)))) (abs_errors xs ys))
                   \<le> nrows original * length (frame_columns original))
            \<and> (0 < length (filter (\<lambda>d. \<not> flt d (Fin (fl (1 / 10 ^ 10)))) (abs_errors xs ys))
                  \<and> nrows original * length (frame_columns original) < 2 ^ 53
                \<longrightarrow> (\<exists>p. similarity_score r = Overall (Fin p) \<and> p < 100)))"
proof -
  have r: "relative_error xs ys = Fin 0"
    using assms(6) by (rule relative_error_zeros)
  have a: "abs_errors xs ys = map (\<lambda>y. fabs (fsub (Fin 0) y)) ys"
    using assms(5,6) by (rule abs_errors_zeros)
  have e: "exact_match_pct xs ys
       = fmul (np_truediv (length (filter (feq (Fin 0)) ys)) (length ys)) (Fin 100)"
    using assms(5,6) by (rule exact_match_pct_zeros)
  obtain mx where mx: "np_max (abs_errors xs ys) = Inr mx"
    using np_max_abs_errors assms(4,5) by blast
  have c: "\<exists>st' max_error.
           check_column to_float original reconstructed col st = Inr st'
         \<and> issues st' = issues st \<and> warnings st' = warnings st
         \<and> np_max (abs_errors xs ys) = Inr max_error
         \<and> metrics st' col = Some (NumericMetric (np_mean (abs_errors xs ys))
              (root_mean_square_error xs ys) max_error (Fin 0)
              (fmul (np_truediv (length (filter (feq (Fin 0)) ys)) (length ys)) (Fin 100)))"
    using assms(1,2,3) mx r e
    by (simp add: check_column_def check_numeric_column_def Let_def mean_abs_error_def
        fl_literals)
  have s: "(\<exists>m. similarity_score r
                   = Overall (fmul (np_truediv m (nrows original * length (frame_columns original)))
                                (Fin 100))
               \<and> m + length (filter (\<lambda>d. \<not> flt d (Fin (fl (1 / 10 ^ 10)))) (abs_errors xs ys))
                   \<le> nrows original * length (frame_columns original))
            \<and> (0 < length (filter (\<lambda>d. \<not> flt d (Fin (fl (1 / 10 ^ 10)))) (abs_errors xs ys))
                  \<and> nrows original * length (frame_columns original) < 2 ^ 53
                \<longrightarrow> (\<exists>p. similarity_score r = Overall (Fin p) \<and> p < 100))"
    if w: "wf_frame original" and sh: "shape original = shape reconstructed"
      and cs: "set (column_names original) = set (column_names reconstructed)"
      and an: "analyze to_float original reconstructed = Inr r"
  proof -
    have mo: "map_of (frame_columns original) col = Some (NumericCol xs)"
      using assms(1) by (simp add: get_column_def split: option.splits)
    then have mem: "(col, NumericCol xs) \<in> set (frame_columns original)"
      by (rule map_of_SomeD)
    then have col: "col \<in> set (column_names original)"
      by (force simp add: column_names_def)
    then have ne: "column_names original \<noteq> []" by auto
    have len: "length xs = nrows original"
      using mem w by (auto simp add: wf_frame_def list_all_iff)
    let ?good = "length (filter (\<lambda>d. flt d (Fin (fl (1 / 10 ^ 10)))) (abs_errors xs ys))"
    let ?bad = "length (filter (\<lambda>d. \<not> flt d (Fin (fl (1 / 10 ^ 10)))) (abs_errors xs ys))"
    have cm: "column_matches to_float original reconstructed col = Inr ?good"
      using assms(1,2,3) by (simp add: column_matches_def)
    have "?good + ?bad = length (abs_errors xs ys)"
      by (rule sum_length_filter_compl)
    also have "\<dots> = nrows original"
      using assms(5) len by (simp add: abs_errors_def)
    finally have gb: "?good + ?bad \<le> nrows original" by simp
    obtain m where m: "sum_matches to_float original reconstructed (column_names original) 0 = Inr m"
        and sc: "similarity_score r
         = Overall (fmul (np_truediv m (nrows original * length (frame_columns original)))
                      (Fin 100))"
      using analyze_similarity_score [OF an sh cs ne] by blast
    have "m + ?bad \<le> 0 + nrows original * length (column_names original)"
      using sum_matches_column [OF w cm gb col m] .
    then have b: "m + ?bad \<le> nrows original * length (frame_columns original)"
      by (simp add: column_names_def)
    have "\<exists>p. similarity_score r = Overall (Fin p) \<and> p < 100"
      if "0 < ?bad" and t: "nrows original * length (frame_columns original) < 2 ^ 53"
    proof -
      have "m < nrows original * length (frame_columns original)"
        using b that(1) by linarith
      then show ?thesis
        using percent_below_100 [OF _ t] sc by auto
    qed
    then show ?thesis using sc b by blast
  qed
  show ?thesis using r a c s by blast
qed

theorem all_zero_original_no_issue_witness:
  "relative_error [Fin 0, Fin 0] [Fin 0, Fin 1000000] = Fin 0
   \<and> (\<exists>st'. check_column no_parse frame_zeros frame_far ''delta'' init_state = Inr st'
          \<and> issues st' = [] \<and> warnings st' = []
          \<and> (\<exists>rmse. metrics st' ''delta''
                = Some (NumericMetric (Fin 500000) rmse (Fin 1000000) (Fin 0) (Fin 50))))
   \<and> (\<exists>r. analyze no_parse frame_zeros frame_far = Inr r
          \<and> similarity_score r = Overall (Fin 50)
          \<and> report_issues r = [] \<and> report_warnings r = [])"
proof -
  have g: "get_column frame_zeros ''delta'' = Inr (NumericCol [Fin 0, Fin 0])"
      "get_column frame_far ''delta'' = Inr (NumericCol [Fin 0, Fin 1000000])"
    by (simp_all add: get_column_def frame_zeros_def frame_far_def)
  have a: "astype_float no_parse (NumericCol [Fin 0, Fin 1000000]) = Inr [Fin 0, Fin 1000000]"
    by simp
  have z: "\<forall>x\<in>set [Fin 0, Fin (0::real)]. x = Fin 0" by simp
  note t = all_zero_original_no_issue [OF g(1) g(2) a _ _ z, of init_state
      "\<lparr>similarity_score = Overall (Fin 50),
          report_issues = [],
          report_warnings = [],
          column_metrics =
            [''delta'' \<mapsto> NumericMetric (Fin 500000)
                (root_mean_square_error [Fin 0, Fin 0] [Fin 0, Fin 1000000])
                (Fin 1000000) (Fin 0) (Fin 50),
             ''overall_similarity'' \<mapsto> Overall (Fin 50)],
          has_critical_issues = False,
          has_errors = False,
          has_warnings = False\<rparr>"]
  show ?thesis
    using t check_column_zeros_far analyze_zeros_far by (simp add: init_state_def)
qed

lemma check_column_id_missing: "check_column no_parse frame_missing frame_missing ''id'' init_state
   = Inr \<lparr>issues = [], warnings = [],
          metrics = [''id'' \<mapsto> NumericMetric (Fin 0) (Fin 0) (Fin 0) (Fin 0) (Fin 100)]\<rparr>"
  by (simp add: frame_missing_def check_column_def get_column_def check_numeric_column_def
      mean_abs_error_def root_mean_square_error_def abs_errors_def np_mean_def
      relative_error_def exact_match_pct_def np_truediv_def init_state_def
      pairwise_sum.simps fl_zero fl_one fl_hundred fl_ints fl_halves)

lemma check_column_name_missing: "check_column no_parse frame_missing frame_missing ''name'' st
   = Inr (st\<lparr>issues := issues st @
            [\<lparr>severity = ERROR, issue_type = string_mismatch, column = Some ''name'',
              detail = ValuesChanged 1 (Fin 50) (Some (1, Num NaN, Num NaN))\<rparr>],
          metrics := (metrics st)(''name'' \<mapsto> StringMetric (Fin 50))\<rparr>)"
  by (simp add: frame_missing_def check_column_def get_column_def check_string_column_def
      count_equal_def np_truediv_def Let_def fl_ints fl_halves)

lemma calculate_similarity_missing: "calculate_similarity no_parse frame_missing frame_missing st
   = Inr (st\<lparr>metrics := (metrics st)(''overall_similarity'' \<mapsto> Overall (Fin 75))\<rparr>)"
  by (simp add: frame_missing_def calculate_similarity_def column_names_def column_matches_def
      get_column_def count_equal_def abs_errors_def np_truediv_def fl_zero fl_ints fl_halves
      fl_literals)

text \<open>
  C2. Comparing a frame with itself does not always give a score of 100 and no issues.
  The frame read from the CSV text \<^verbatim>\<open>id,name\n1,a\n2,\n\<close> has a missing value in the
  \<^verbatim>\<open>object\<close> column \<^verbatim>\<open>name\<close>; \<^verbatim>\<open>orig == recon\<close> is false at a missing value, so the
  report on the frame against itself has an ERROR \<^verbatim>\<open>string_mismatch\<close> issue and a score
  of 75.
\<close>

theorem analyze_identity_missing_value:
  "analyze no_parse frame_missing frame_missing =
     Inr \<lparr>similarity_score = Overall (Fin 75),
          report_issues =
            [\<lparr>severity = ERROR, issue_type = string_mismatch, column = Some ''name'',
              detail = ValuesChanged 1 (Fin 50) (Some (1, Num NaN, Num NaN))\<rparr>],
          report_warnings = [],
          column_metrics =
            [''id'' \<mapsto> NumericMetric (Fin 0) (Fin 0) (Fin 0) (Fin 0) (Fin 100),
             ''name'' \<mapsto> StringMetric (Fin 50),
             ''overall_similarity'' \<mapsto> Overall (Fin 75)],
          has_critical_issues = False,
          has_errors = True,
          has_warnings = False\<rparr>"
proof -
  have n: "column_names frame_missing = [''id'', ''name'']"
    by (simp add: column_names_def frame_missing_def)
  show ?thesis
    by (simp add: analyze_def n check_column_id_missing check_column_name_missing
        calculate_similarity_missing build_report_def dict_get_def)
qed

text \<open>
  A frame with a header and no rows: every percentage is \<^verbatim>\<open>0 / 0\<close>, and the score of the
  frame against itself is \<^verbatim>\<open>nan\<close>.
\<close>

lemma analyze_header_only:
  "analyze no_parse frame_header_only frame_header_only =
     Inr \<lparr>similarity_score = Overall NaN,
          report_issues = [],
          report_warnings = [],
          column_metrics = [''name'' \<mapsto> StringMetric NaN,
                            ''overall_similarity'' \<mapsto> Overall NaN],
          has_critical_issues = False,
          has_errors = False,
          has_warnings = False\<rparr>"
  by (simp add: analyze_def shape_def column_names_def frame_header_only_def check_column_def
      get_column_def check_string_column_def count_equal_def np_truediv_def Let_def
      init_state_def calculate_similarity_def column_matches_def build_report_def dict_get_def)

text \<open>
  On well-formed frames with at least one row, at least one column and no missing value,
  the comparison of a frame with itself is exact.
\<close>

lemma cell_eq_refl: "\<not> cell_is_nan x \<Longrightarrow> cell_eq x x"
  by (cases x rule: cell_is_nan.cases) simp_all

lemma count_equal_same:
  "list_all (\<lambda>x. \<not> cell_is_nan x) cs \<Longrightarrow> count_equal cs cs = length cs"
  by (induction cs) (simp_all add: count_equal_def cell_eq_refl)

lemma feq_filter_same:
  "list_all (\<lambda>x. \<not> cell_is_nan x) (map Num xs) \<Longrightarrow>
     length (filter (\<lambda>(x, y). feq x y) (zip xs xs)) = length xs"
proof (induction xs)
  case Nil
  then show ?case by simp
next
  case (Cons x xs)
  then show ?case by (cases x) simp_all
qed

lemma abs_errors_same:
  "list_all (\<lambda>x. \<not> cell_is_nan x) (map Num xs) \<Longrightarrow>
     abs_errors xs xs = replicate (length xs) (Fin 0)"
proof (induction xs)
  case Nil
  then show ?case by (simp add: abs_errors_def)
next
  case (Cons x xs)
  then show ?case by (cases x) (simp_all add: abs_errors_def fl_zero)
qed

lemma np_percent_full: "0 < n \<Longrightarrow> fmul (np_truediv n n) (Fin 100) = Fin 100"
  by (simp add: np_truediv_def fl_one fl_hundred)

lemma check_string_column_same:
  assumes "list_all (\<lambda>x. \<not> cell_is_nan x) cs" and "cs \<noteq> []"
  shows "issues (check_string_column col cs cs st) = issues st
       \<and> warnings (check_string_column col cs cs st) = warnings st"
  using assms by (simp add: check_string_column_def Let_def count_equal_same np_percent_full)

lemma check_numeric_column_same:
  assumes "list_all (\<lambda>x. \<not> cell_is_nan x) (map Num xs)" and "xs \<noteq> []"
  shows "\<exists>st'. check_numeric_column col xs xs st = Inr st'
       \<and> issues st' = issues st \<and> warnings st' = warnings st"
proof -
  obtain m where m: "np_max (abs_errors xs xs) = Inr m"
    using np_max_abs_errors assms(2) by blast
  have e: "exact_match_pct xs xs = Fin 100"
    using assms by (simp add: exact_match_pct_def feq_filter_same np_percent_full)
  show ?thesis
    using m e by (simp add: check_numeric_column_def Let_def)
qed

lemma check_column_same:
  assumes "map_of (frame_columns T) col = Some c"
    and "list_all (\<lambda>x. \<not> cell_is_nan x) (column_cells c)"
    and "column_cells c \<noteq> []"
  shows "\<exists>st'. check_column to_float T T col st = Inr st'
       \<and> issues st' = issues st \<and> warnings st' = warnings st"
proof (cases c)
  case (ObjectCol cs)
  then show ?thesis
    using assms check_string_column_same [of cs col st]
    by (simp add: check_column_def get_column_def)
next
  case (NumericCol xs)
  then show ?thesis
    using assms check_numeric_column_same [of xs col st]
    by (simp add: check_column_def get_column_def)
qed

lemma column_matches_same:
  assumes "map_of (frame_columns T) col = Some c"
    and "list_all (\<lambda>x. \<not> cell_is_nan x) (column_cells c)"
  shows "column_matches to_float T T col = Inr (length (column_cells c))"
proof (cases c)
  case (ObjectCol cs)
  then show ?thesis
    using assms by (simp add: column_matches_def get_column_def count_equal_same)
next
  case (NumericCol xs)
  then show ?thesis
    using assms by (simp add: column_matches_def get_column_def abs_errors_same fl_literals)
qed

lemma frame_lookup:
  assumes "wf_frame T" and "no_missing T" and "col \<in> set (column_names T)"
  shows "\<exists>c. map_of (frame_columns T) col = Some c
       \<and> list_all (\<lambda>x. \<not> cell_is_nan x) (column_cells c)
       \<and> length (column_cells c) = nrows T"
proof -
  have "map_of (frame_columns T) col \<noteq> None"
    using assms(3) by (simp add: column_names_def map_of_eq_None_iff)
  then obtain c where c: "map_of (frame_columns T) col = Some c"
    by auto
  then have "(col, c) \<in> set (frame_columns T)"
    by (rule map_of_SomeD)
  then show ?thesis
    using assms(1,2) c by (auto simp add: wf_frame_def no_missing_def list_all_iff)
qed

lemma check_columns_same:
  assumes "wf_frame T" and "no_missing T" and "0 < nrows T"
    and "set names \<subseteq> set (column_names T)"
  shows "\<exists>st'. check_columns to_float T T names st = Inr st'
       \<and> issues st' = issues st \<and> warnings st' = warnings st"
  using assms(4)
proof (induction names arbitrary: st)
  case Nil
  then show ?case by simp
next
  case (Cons col rest)
  obtain c where c: "map_of (frame_columns T) col = Some c"
      "list_all (\<lambda>x. \<not> cell_is_nan x) (column_cells c)" "length (column_cells c) = nrows T"
    using frame_lookup [OF assms(1,2), of col] Cons.prems by auto
  then have "column_cells c \<noteq> []" using assms(3) by auto
  then obtain st1 where st1: "check_column to_float T T col st = Inr st1"
      "issues st1 = issues st" "warnings st1 = warnings st"
    using check_column_same [OF c(1,2), of to_float st] by blast
  obtain st2 where "check_columns to_float T T rest st1 = Inr st2"
      "issues st2 = issues st1" "warnings st2 = warnings st1"
    using Cons.IH [of st1] Cons.prems by auto
  then show ?case using st1 by simp
qed

lemma sum_matches_same:
  assumes "wf_frame T" and "no_missing T"
    and "set names \<subseteq> set (column_names T)"
  shows "sum_matches to_float T T names acc = Inr (acc + nrows T * length names)"
  using assms(3)
proof (induction names arbitrary: acc)
  case Nil
  then show ?case by simp
next
  case (Cons col rest)
  obtain c where c: "map_of (frame_columns T) col = Some c"
      "list_all (\<lambda>x. \<not> cell_is_nan x) (column_cells c)" "length (column_cells c) = nrows T"
    using frame_lookup [OF assms(1,2), of col] Cons.prems by auto
  have "column_matches to_float T T col = Inr (nrows T)"
    using column_matches_same [OF c(1,2)] c(3) by simp
  then show ?case using Cons.IH [of "acc + nrows T"] Cons.prems by simp
qed

lemma analyze_identity_complete_frames:
  assumes "wf_frame T" and "no_missing T" and "0 < nrows T" and "frame_columns T \<noteq> []"
  shows "\<exists>r. analyze to_float T T = Inr r
     \<and> similarity_score r = Overall (Fin 100)
     \<and> report_issues r = [] \<and> report_warnings r = []"
proof -
  obtain st where st: "check_columns to_float T T (column_names T) init_state = Inr st"
      "issues st = []" "warnings st = []"
    using check_columns_same [OF assms(1,2,3), of "column_names T" to_float init_state]
    by (auto simp add: init_state_def)
  have s: "sum_matches to_float T T (column_names T) 0
             = Inr (nrows T * length (frame_columns T))"
    using sum_matches_same [OF assms(1,2), of "column_names T" to_float 0]
    by (simp add: column_names_def)
  have n: "column_names T \<noteq> []"
    using assms(4) by (simp add: column_names_def)
  have p: "0 < nrows T * length (frame_columns T)"
    using assms(3,4) by simp
  have "calculate_similarity to_float T T st
          = Inr (st\<lparr>metrics := (metrics st)(''overall_similarity'' \<mapsto> Overall (Fin 100))\<rparr>)"
    using s n np_percent_full [OF p] by (simp add: calculate_similarity_def)
  then show ?thesis
    using st by (simp add: analyze_def build_report_def dict_get_def)
qed

lemma analyze_identity_frame_2x2:
  "wf_frame frame_2x2 \<and> no_missing frame_2x2
   \<and> (\<exists>r. analyze no_parse frame_2x2 frame_2x2 = Inr r
     \<and> similarity_score r = Overall (Fin 100)
     \<and> report_issues r = [] \<and> report_warnings r = [])"
proof -
  have w: "wf_frame frame_2x2" by (simp add: wf_frame_def frame_2x2_def)
  have m: "no_missing frame_2x2" by (simp add: no_missing_def frame_2x2_def)
  have r: "0 < nrows frame_2x2" by (simp add: frame_2x2_def)
  have c: "frame_columns frame_2x2 \<noteq> []" by (simp add: frame_2x2_def)
  show ?thesis using w m analyze_identity_complete_frames [OF w m r c, of no_parse] by simp
qed

end
